theory Spec2Isabelle
  imports Main
begin

section \<open>Input sheet: building the work list (getDataFromSheet)\<close>

text \<open>
  \<^verbatim>\<open>xlsx.utils.sheet_to_json(sheet, { defval: "" })\<close> yields one object per sheet row,
  keyed by column header. A cell is a text, a number or a boolean; reading a header the
  object does not have gives \<^verbatim>\<open>undefined\<close>. Of a number the programs use two things only,
  and a numeric cell is given by them: whether it is truthy (it is neither 0 nor NaN), and
  the text JavaScript converts it to, as a property key and when it is typed into a
  search field (for the number 7 this is \<open>CNum True ''7''\<close>).
\<close>

datatype cell = Undefined | CStr string | CNum bool string | CBool bool

type_synonym row = "string \<Rightarrow> cell"

text \<open>JavaScript truthiness, as used by \<^verbatim>\<open>!item["Property Name"]\<close>.\<close>

fun truthy :: "cell \<Rightarrow> bool" where
  "truthy Undefined = False"
| "truthy (CStr s) = (s \<noteq> [])"
| "truthy (CNum nonzero numberText) = nonzero"
| "truthy (CBool b) = b"

text \<open>A property access \<^verbatim>\<open>hashMap[v]\<close> converts \<open>v\<close> to a string key.\<close>

fun propertyKey :: "cell \<Rightarrow> string" where
  "propertyKey Undefined = ''undefined''"
| "propertyKey (CStr s) = s"
| "propertyKey (CNum nonzero numberText) = numberText"
| "propertyKey (CBool b) = (if b then ''true'' else ''false'')"

text \<open>
  \<^verbatim>\<open>const hashMap = {}\<close> is an ordinary object: a key it does not own is looked up
  on \<^verbatim>\<open>Object.prototype\<close>, whose members are functions (and, for \<^verbatim>\<open>__proto__\<close>, the
  prototype object itself), all of them truthy.
\<close>

definition object_prototype_keys :: "string list" where
  "object_prototype_keys =
     [''constructor'', ''__defineGetter__'', ''__defineSetter__'', ''hasOwnProperty'',
      ''__lookupGetter__'', ''__lookupSetter__'', ''isPrototypeOf'',
      ''propertyIsEnumerable'', ''toString'', ''valueOf'', ''__proto__'',
      ''toLocaleString'']"

datatype hm_value = HmMissing | HmOwn nat | HmInherited

definition hashMap_get :: "(string \<rightharpoonup> nat) \<Rightarrow> string \<Rightarrow> hm_value" where
  "hashMap_get hashMap k =
     (case hashMap k of
        Some n \<Rightarrow> HmOwn n
      | None \<Rightarrow> if k \<in> set object_prototype_keys then HmInherited else HmMissing)"

datatype js_error = TypeError | ReferenceError | BrowserError

text \<open>
  One entry of \<^verbatim>\<open>hotels\<close>. The name-keyed program calls the first field \<^verbatim>\<open>name\<close>, the
  id-keyed one \<^verbatim>\<open>id\<close>; they are built the same way.
\<close>

record hotel =
  name :: cell
  idList :: "cell list"

type_synonym group_state = "(string \<rightharpoonup> nat) \<times> hotel list \<times> nat"

text \<open>
  The body of \<^verbatim>\<open>for (const item of sheetData)\<close>, for the property column \<open>col\<close>.
  \<^verbatim>\<open>hotels[hashMap[k] - 1]\<close> with an inherited member is \<^verbatim>\<open>hotels[NaN]\<close>, that is
  \<^verbatim>\<open>undefined\<close>, and reading \<^verbatim>\<open>.idList\<close> of it raises a TypeError.
\<close>

definition newHotel :: "string \<Rightarrow> row \<Rightarrow> group_state \<Rightarrow> group_state" where
  "newHotel col item st =
     (case st of (hashMap, hotels, cnt) \<Rightarrow>
        (hashMap(propertyKey (item col) \<mapsto> cnt + 1),
         hotels @ [\<lparr>name = item col, idList = [item ''Reservation ID'']\<rparr>],
         cnt + 1))"

definition pushId :: "nat \<Rightarrow> row \<Rightarrow> group_state \<Rightarrow> js_error + group_state" where
  "pushId n item st =
     (case st of (hashMap, hotels, cnt) \<Rightarrow>
        if n - 1 < length hotels
        then Inr (hashMap,
                  hotels[n - 1 := (hotels ! (n - 1))
                     \<lparr>idList := idList (hotels ! (n - 1)) @ [item ''Reservation ID'']\<rparr>],
                  cnt)
        else Inl TypeError)"

definition addRow :: "string \<Rightarrow> row \<Rightarrow> group_state \<Rightarrow> js_error + group_state" where
  "addRow col item st =
     (if \<not> truthy (item col) then Inr st
      else (case hashMap_get (fst st) (propertyKey (item col)) of
              HmMissing \<Rightarrow> Inr (newHotel col item st)
            | HmOwn n \<Rightarrow> if n = 0 then Inr (newHotel col item st) else pushId n item st
            | HmInherited \<Rightarrow> Inl TypeError))"

fun addRows :: "string \<Rightarrow> row list \<Rightarrow> group_state \<Rightarrow> js_error + group_state" where
  "addRows col [] st = Inr st"
| "addRows col (item # items) st =
     (case addRow col item st of
        Inl e \<Rightarrow> Inl e
      | Inr st' \<Rightarrow> addRows col items st')"

text \<open>
  What \<^verbatim>\<open>xlsx.readFile\<close> and \<^verbatim>\<open>sheet_to_json\<close> gave: an exception, or the rows.
\<close>

datatype sheet_read = ReadFails | SheetData "row list"

definition getDataFromSheet_by :: "string \<Rightarrow> sheet_read \<Rightarrow> hotel list" where
  "getDataFromSheet_by col input =
     (case input of
        ReadFails \<Rightarrow> []
      | SheetData sheetData \<Rightarrow>
          if length sheetData = 0 then []
          else (case addRows col sheetData (Map.empty, [], 0) of
                  Inl e \<Rightarrow> []
                | Inr st \<Rightarrow> fst (snd st)))"

text \<open>The name-keyed program (index.js) and the id-keyed one.\<close>

definition getDataFromSheet :: "sheet_read \<Rightarrow> hotel list" where
  "getDataFromSheet = getDataFromSheet_by ''Property Name''"

definition getDataFromSheet_id :: "sheet_read \<Rightarrow> hotel list" where
  "getDataFromSheet_id = getDataFromSheet_by ''Property ID''"

section \<open>Reservation records\<close>

text \<open>The outcome of an awaited browser call: it rejects, or it resolves to a value.\<close>

datatype 'a res = Throws | Ok 'a

text \<open>The object read from one table row (\<^verbatim>\<open>basicData\<close>). Every field is a string.\<close>

record basicData =
  guestName :: string
  reservationId :: string
  confirmationCode :: string
  checkInDate :: string
  checkOutDate :: string
  roomType :: string
  bookingAmount :: string
  bookedDate :: string

text \<open>
  An element of \<^verbatim>\<open>pageReservations\<close>. A property that an object literal does not set
  is \<open>None\<close>. The first eight fields are the spread \<^verbatim>\<open>...basicData\<close>.
\<close>

record reservation =
  r_guestName :: string
  r_reservationId :: string
  r_confirmationCode :: string
  r_checkInDate :: string
  r_checkOutDate :: string
  r_roomType :: string
  r_bookingAmount :: string
  r_bookedDate :: string
  cardNumber :: "string option"
  expiryDate :: "string option"
  cvv :: "string option"
  additionalText :: "string option"
  hasCardInfo :: bool
  hasPaymentInfo :: bool
  totalGuestPayment :: "string option"
  cancellationFee :: "string option"
  expediaCompensation :: "string option"
  totalPayout :: "string option"
  remainingAmountToCharge :: "string option"
  amountToRefund :: "string option"
  amountToChargeOrRefund :: string
  reasonOfCharge :: "string option"
  status :: "string option"
  propertyId :: "cell option"
  propertyName :: "cell option"
  amount :: "string option"

text \<open>
  \<^verbatim>\<open>a || d\<close> and the truthiness of \<open>a\<close>, for a variable \<open>a\<close> that holds \<^verbatim>\<open>null\<close> or a
  string: the empty string and \<^verbatim>\<open>null\<close> are falsy.
\<close>

definition nonEmpty :: "string option \<Rightarrow> bool" where
  "nonEmpty a = (case a of None \<Rightarrow> False | Some s \<Rightarrow> s \<noteq> [])"

definition orElse :: "string option \<Rightarrow> string \<Rightarrow> string" where
  "orElse a d = (case a of None \<Rightarrow> d | Some s \<Rightarrow> if s = [] then d else s)"

text \<open>
  The session state of one call: the set \<^verbatim>\<open>processedReservationIds\<close> and the array
  \<^verbatim>\<open>pageReservations\<close>. Both are created once, before the page loop.
\<close>

type_synonym sstate = "string set \<times> reservation list"

text \<open>
  How the body of \<^verbatim>\<open>for (const row of rows)\<close> ends: normally (also by \<^verbatim>\<open>continue\<close>),
  or with an exception that leaves the row's \<^verbatim>\<open>try\<close>/\<^verbatim>\<open>catch\<close>.
\<close>

datatype row_end = RowDone | RowThrew js_error

text \<open>
  The row's handler \<^verbatim>\<open>catch (error) { logger.info(...); if (basicData) { push } }\<close>.
  \<^verbatim>\<open>basicData\<close> is a \<^verbatim>\<open>const\<close> of the \<^verbatim>\<open>try\<close> block and is not in scope in the handler,
  and no outer scope declares it: evaluating the condition raises a ReferenceError, which
  leaves the handler before the push. The state is as it was when the row threw.
\<close>

definition rowCatch :: "sstate \<Rightarrow> sstate \<times> row_end" where
  "rowCatch st = (st, RowThrew ReferenceError)"

text \<open>What is observed of a row up to the opening of its detail dialog.\<close>

record 'd row_obs =
  basicEval :: "basicData res"
  clickOk :: bool
  dialogAppears :: bool
  dialog :: 'd

section \<open>The row body of the name-keyed program (index.js)\<close>

text \<open>
  A \<^verbatim>\<open>.sidePanelSectionTitle\<close> element of a cancelled reservation's dialog: its trimmed
  text, and what \<^verbatim>\<open>section.closest(".fds-grid").querySelector(".fds-currency-value")\<close>
  gives: a TypeError when there is no enclosing grid, no cell, or the cell's trimmed text.
\<close>

type_synonym section_title = "string \<times> string option res"

definition getCurrencyValue :: "section_title list \<Rightarrow> string \<Rightarrow> string res" where
  "getCurrencyValue sections title =
     (case find (\<lambda>el. fst el = title) sections of
        None \<Rightarrow> Ok ''0.00''
      | Some el \<Rightarrow>
          (case snd el of
             Throws \<Rightarrow> Throws
           | Ok None \<Rightarrow> Ok ''0.00''
           | Ok (Some v) \<Rightarrow> Ok v))"

definition paymentInfo :: "section_title list \<Rightarrow> (string \<times> string \<times> string) res" where
  "paymentInfo sections =
     (case getCurrencyValue sections ''Cancellation fee'' of
        Throws \<Rightarrow> Throws
      | Ok fee \<Rightarrow>
          (case getCurrencyValue sections ''Expedia compensation'' of
             Throws \<Rightarrow> Throws
           | Ok compensation \<Rightarrow>
               (case getCurrencyValue sections ''Your total payout'' of
                  Throws \<Rightarrow> Throws
                | Ok payout \<Rightarrow> Ok (fee, compensation, payout))))"

definition canceledReservation :: "basicData \<Rightarrow> string \<times> string \<times> string \<Rightarrow> reservation" where
  "canceledReservation b info =
     (case info of (fee, compensation, payout) \<Rightarrow>
        \<lparr>r_guestName = guestName b, r_reservationId = reservationId b,
         r_confirmationCode = confirmationCode b, r_checkInDate = checkInDate b,
         r_checkOutDate = checkOutDate b, r_roomType = roomType b,
         r_bookingAmount = bookingAmount b, r_bookedDate = bookedDate b,
         cardNumber = Some ''N/A'', expiryDate = Some ''N/A'', cvv = Some ''N/A'',
         additionalText = None,
         hasCardInfo = False, hasPaymentInfo = True,
         totalGuestPayment = Some ''0.00'', cancellationFee = Some fee,
         expediaCompensation = Some compensation, totalPayout = Some payout,
         remainingAmountToCharge = None, amountToRefund = None,
         amountToChargeOrRefund = fee,
         reasonOfCharge = Some ''Cancellation Fee'', status = Some ''Cancelled'',
         propertyId = None, propertyName = None, amount = None\<rparr>)"

text \<open>
  One pass of the retry loop reads the card block, then (only without card data) the
  payment block, then the two side fields. Each read can reject.
  \<^verbatim>\<open>cardEval\<close>: the texts of card number, expiry date and CVV;
  \<^verbatim>\<open>paymentEval\<close>: the texts of total guest payment, Expedia compensation and total payout;
  \<^verbatim>\<open>additionalEval\<close>: the texts of remaining amount to charge and amount to refund.
\<close>

record iter_obs =
  cardEval :: "(string \<times> string \<times> string) res"
  paymentEval :: "(string \<times> string \<times> string) res"
  additionalEval :: "(string \<times> string) res"

text \<open>The in-page functions return an object only when the leading text is non-empty.\<close>

definition cardData_of :: "string \<times> string \<times> string \<Rightarrow> (string \<times> string \<times> string) option" where
  "cardData_of t = (if fst t \<noteq> [] then Some t else None)"

definition paymentData_of :: "string \<times> string \<times> string \<Rightarrow> (string \<times> string \<times> string) option" where
  "paymentData_of t = (if fst t \<noteq> [] then Some t else None)"

text \<open>
  The loop variables \<^verbatim>\<open>cardData\<close>, \<^verbatim>\<open>paymentData\<close>, \<^verbatim>\<open>remainingAmountToCharge\<close>,
  \<^verbatim>\<open>amountToRefund\<close> and \<^verbatim>\<open>retries\<close>.
\<close>

type_synonym card_vars =
  "(string \<times> string \<times> string) option \<times> (string \<times> string \<times> string) option \<times>
   string option \<times> string option \<times> nat"

definition readAdditional :: "iter_obs \<Rightarrow> card_vars \<Rightarrow> card_vars" where
  "readAdditional ob v =
     (case v of (cardData, paymentData, remaining, refund, retries) \<Rightarrow>
        (case additionalEval ob of
           Throws \<Rightarrow> (cardData, paymentData, remaining, refund, retries + 1)
         | Ok (remainingAmount, refundAmount) \<Rightarrow>
             (cardData, paymentData, Some remainingAmount, Some refundAmount, retries)))"

definition cardStep :: "iter_obs \<Rightarrow> card_vars \<Rightarrow> card_vars" where
  "cardStep ob v =
     (case v of (cardData, paymentData, remaining, refund, retries) \<Rightarrow>
        (case cardEval ob of
           Throws \<Rightarrow> (cardData, paymentData, remaining, refund, retries + 1)
         | Ok ct \<Rightarrow>
             if cardData_of ct = None
             then (case paymentEval ob of
                     Throws \<Rightarrow> (None, paymentData, remaining, refund, retries + 1)
                   | Ok pt \<Rightarrow>
                       readAdditional ob (None, paymentData_of pt, remaining, refund, retries))
             else readAdditional ob (cardData_of ct, paymentData, remaining, refund, retries)))"

text \<open>
  \<^verbatim>\<open>while (!cardData && !paymentData && retries < 3) { try {...} catch (e) { retries++ } }\<close>.
  \<open>i\<close> counts the passes and selects the observation of the pass. The counter
  \<^verbatim>\<open>retries\<close> moves only in the handler, so the loop need not end.
\<close>

partial_function (option) cardLoop :: "(nat \<Rightarrow> iter_obs) \<Rightarrow> nat \<Rightarrow> card_vars \<Rightarrow> card_vars option" where
  "cardLoop obs i v =
     (case v of (cardData, paymentData, remaining, refund, retries) \<Rightarrow>
        if cardData = None \<and> paymentData = None \<and> retries < 3
        then cardLoop obs (i + 1) (cardStep (obs i) v)
        else Some v)"

declare cardLoop.simps [code]

definition activeReservation :: "basicData \<Rightarrow> card_vars \<Rightarrow> reservation" where
  "activeReservation b v =
     (case v of (cardData, paymentData, remaining, refund, retries) \<Rightarrow>
        \<lparr>r_guestName = guestName b, r_reservationId = reservationId b,
         r_confirmationCode = confirmationCode b, r_checkInDate = checkInDate b,
         r_checkOutDate = checkOutDate b, r_roomType = roomType b,
         r_bookingAmount = bookingAmount b, r_bookedDate = bookedDate b,
         cardNumber = map_option fst cardData,
         expiryDate = map_option (fst \<circ> snd) cardData,
         cvv = map_option (snd \<circ> snd) cardData,
         additionalText = None,
         hasCardInfo = (cardData \<noteq> None), hasPaymentInfo = (paymentData \<noteq> None),
         totalGuestPayment = map_option fst paymentData, cancellationFee = None,
         expediaCompensation = map_option (fst \<circ> snd) paymentData,
         totalPayout = map_option (snd \<circ> snd) paymentData,
         remainingAmountToCharge = Some (orElse remaining ''N/A''),
         amountToRefund = Some (orElse refund ''N/A''),
         amountToChargeOrRefund = orElse remaining (orElse refund ''N/A''),
         reasonOfCharge =
           Some (if nonEmpty remaining then ''Remaining Amount to Charge''
                 else if nonEmpty refund then ''Amount to Refund''
                 else ''N/A''),
         status = None,
         propertyId = None, propertyName = None, amount = None\<rparr>)"

text \<open>
  What is observed of an open dialog: whether its title contains "Cancelled" or
  "Canceled" (\<^verbatim>\<open>isCanceledEval\<close>); in the cancellation branch whether the two waits for
  the header and the card title succeed and which section titles are found; otherwise
  whether scrolling the dialog succeeds and what each pass of the retry loop reads.
\<close>

record dialog_obs =
  isCanceledEval :: "bool res"
  cancelWaitsOk :: bool
  cancelSections :: "section_title list res"
  scrollOk :: bool
  iters :: "nat \<Rightarrow> iter_obs"

text \<open>
  The cancellation branch has its own \<^verbatim>\<open>try\<close>/\<^verbatim>\<open>catch\<close>, whose handler only logs and
  continues: a failure before the push emits nothing, and the attempts to close the
  dialog after the push change neither the set nor the array.
\<close>

definition canceledBranch :: "dialog_obs \<Rightarrow> basicData \<Rightarrow> sstate \<Rightarrow> sstate" where
  "canceledBranch d b st =
     (if \<not> cancelWaitsOk d then st
      else (case cancelSections d of
              Throws \<Rightarrow> st
            | Ok sections \<Rightarrow>
                (case paymentInfo sections of
                   Throws \<Rightarrow> st
                 | Ok info \<Rightarrow> (fst st, snd st @ [canceledReservation b info]))))"

text \<open>
  The row body. \<open>None\<close>: the retry loop does not end. The failure to close the side panel
  is caught and logged in place and does not show in the result.
\<close>

definition processRow :: "dialog_obs row_obs \<Rightarrow> sstate \<Rightarrow> (sstate \<times> row_end) option" where
  "processRow row st =
     (case basicEval row of
        Throws \<Rightarrow> Some (rowCatch st)
      | Ok b \<Rightarrow>
          if reservationId b \<in> fst st then Some (st, RowDone)
          else
            let st1 = (insert (reservationId b) (fst st), snd st) in
            if \<not> clickOk row then Some (rowCatch st1)
            else if \<not> dialogAppears row then Some (st1, RowDone)
            else (case isCanceledEval (dialog row) of
                    Throws \<Rightarrow> Some (rowCatch st1)
                  | Ok True \<Rightarrow> Some (canceledBranch (dialog row) b st1, RowDone)
                  | Ok False \<Rightarrow>
                      if \<not> scrollOk (dialog row) then Some (rowCatch st1)
                      else (case cardLoop (iters (dialog row)) 0 (None, None, None, None, 0) of
                              None \<Rightarrow> None
                            | Some v \<Rightarrow>
                                Some ((fst st1, snd st1 @ [activeReservation b v]), RowDone))))"

section \<open>The row body of the id-keyed program\<close>

text \<open>
  One pass of its retry loop. \<^verbatim>\<open>evcEval\<close>: whether an \<^verbatim>\<open>.evcCardBase\<close> element exists and,
  if so, the text of its status badge (\<^verbatim>\<open>'None'\<close> without a badge);
  \<^verbatim>\<open>cardEval_id\<close>: the texts of card number, expiry date, CVV and the joined additional
  text; \<^verbatim>\<open>paymentEval_id\<close>: \<open>None\<close> without a payment summary, else the values found for
  cancellation fee, Expedia compensation, total payout and total guest payment;
  \<^verbatim>\<open>additionalEval_id\<close>: as in the name-keyed program. The card object also carries the
  page's own \<^verbatim>\<open>status\<close>, which the record's later \<^verbatim>\<open>status\<close> key always overrides.
\<close>

record iter_obs_id =
  evcEval :: "string option res"
  cardEval_id :: "(string \<times> string \<times> string \<times> string) res"
  paymentEval_id :: "(string \<times> string \<times> string \<times> string) option res"
  additionalEval_id :: "(string \<times> string) res"

definition cardData_id_of ::
  "string \<times> string \<times> string \<times> string \<Rightarrow> (string \<times> string \<times> string \<times> string) option" where
  "cardData_id_of t = (if fst t \<noteq> [] then Some t else None)"

text \<open>The payment object lists total guest payment first.\<close>

definition paymentData_id_of ::
  "(string \<times> string \<times> string \<times> string) option \<Rightarrow> (string \<times> string \<times> string \<times> string) option" where
  "paymentData_id_of t =
     (case t of
        None \<Rightarrow> None
      | Some (fee, compensation, payout, guestPayment) \<Rightarrow>
          if fee \<noteq> [] \<or> compensation \<noteq> [] \<or> payout \<noteq> []
          then Some (guestPayment, fee, compensation, payout) else None)"

text \<open>
  The loop variables \<^verbatim>\<open>cardData\<close>, \<^verbatim>\<open>paymentData\<close>, \<^verbatim>\<open>remainingAmountToCharge\<close>,
  \<^verbatim>\<open>amountToRefund\<close> and \<^verbatim>\<open>status\<close>; \<^verbatim>\<open>retries\<close> is passed beside them.
\<close>

type_synonym card_vars_id =
  "(string \<times> string \<times> string \<times> string) option \<times>
   (string \<times> string \<times> string \<times> string) option \<times>
   string option \<times> string option \<times> string"

text \<open>
  From "Always try to get payment information regardless of card data" to the end of
  the \<^verbatim>\<open>try\<close> block. The flag says whether the pass ends in \<^verbatim>\<open>break\<close>; otherwise
  \<^verbatim>\<open>retries\<close> is incremented, in the block or in its handler.
\<close>

definition readPayment_id :: "iter_obs_id \<Rightarrow> card_vars_id \<Rightarrow> card_vars_id \<times> bool" where
  "readPayment_id ob v =
     (case v of (cardData, paymentData, remaining, refund, badge) \<Rightarrow>
        (case paymentEval_id ob of
           Throws \<Rightarrow> (v, False)
         | Ok pt \<Rightarrow>
             (case additionalEval_id ob of
                Throws \<Rightarrow> ((cardData, paymentData_id_of pt, remaining, refund, badge), False)
              | Ok (remainingAmount, refundAmount) \<Rightarrow>
                  ((cardData, paymentData_id_of pt, Some remainingAmount, Some refundAmount, badge),
                   cardData \<noteq> None \<or> paymentData_id_of pt \<noteq> None))))"

definition cardStep_id :: "iter_obs_id \<Rightarrow> card_vars_id \<Rightarrow> card_vars_id \<times> bool" where
  "cardStep_id ob v =
     (case v of (cardData, paymentData, remaining, refund, badge) \<Rightarrow>
        (case evcEval ob of
           Throws \<Rightarrow> (v, False)
         | Ok None \<Rightarrow> readPayment_id ob v
         | Ok (Some badge') \<Rightarrow>
             (case cardEval_id ob of
                Throws \<Rightarrow> ((cardData, paymentData, remaining, refund, badge'), False)
              | Ok ct \<Rightarrow>
                  readPayment_id ob (cardData_id_of ct, paymentData, remaining, refund, badge'))))"

text \<open>\<^verbatim>\<open>while (retries < 3)\<close>: every pass breaks or increments \<^verbatim>\<open>retries\<close>.\<close>

function cardLoop_id :: "(nat \<Rightarrow> iter_obs_id) \<Rightarrow> nat \<Rightarrow> card_vars_id \<Rightarrow> nat \<Rightarrow> card_vars_id" where
  "cardLoop_id obs i v retries =
     (if retries < 3
      then (if snd (cardStep_id (obs i) v) then fst (cardStep_id (obs i) v)
            else cardLoop_id obs (i + 1) (fst (cardStep_id (obs i) v)) (retries + 1))
      else v)"
  by pat_completeness auto
termination
  by (relation "measure (\<lambda>(obs, i, v, retries). 3 - retries)") auto

declare cardLoop_id.simps [simp del]

definition activeReservation_id ::
  "cell \<Rightarrow> cell \<Rightarrow> basicData \<Rightarrow> card_vars_id \<Rightarrow> string \<Rightarrow> string \<Rightarrow> reservation" where
  "activeReservation_id pid pname b v remainingBalance propertyInfo =
     (case v of (cardData, paymentData, remaining, refund, badge) \<Rightarrow>
        \<lparr>r_guestName = guestName b, r_reservationId = reservationId b,
         r_confirmationCode = confirmationCode b, r_checkInDate = checkInDate b,
         r_checkOutDate = checkOutDate b, r_roomType = roomType b,
         r_bookingAmount = bookingAmount b, r_bookedDate = bookedDate b,
         cardNumber = map_option fst cardData,
         expiryDate = map_option (fst \<circ> snd) cardData,
         cvv = map_option (fst \<circ> snd \<circ> snd) cardData,
         additionalText = map_option (snd \<circ> snd \<circ> snd) cardData,
         hasCardInfo = (cardData \<noteq> None), hasPaymentInfo = (paymentData \<noteq> None),
         totalGuestPayment = map_option fst paymentData,
         cancellationFee = map_option (fst \<circ> snd) paymentData,
         expediaCompensation = map_option (fst \<circ> snd \<circ> snd) paymentData,
         totalPayout = map_option (snd \<circ> snd \<circ> snd) paymentData,
         remainingAmountToCharge = Some (orElse remaining ''N/A''),
         amountToRefund = Some (orElse refund ''N/A''),
         amountToChargeOrRefund =
           orElse (map_option (snd \<circ> snd \<circ> snd) cardData)
             (orElse remaining (orElse refund ''N/A'')),
         reasonOfCharge = None,
         status = Some badge,
         propertyId = Some pid,
         propertyName = Some (if propertyInfo \<noteq> [] then CStr propertyInfo else pname),
         amount = Some remainingBalance\<rparr>)"

text \<open>
  What is observed of an open dialog. \<^verbatim>\<open>titleCancelled\<close>: the dialog title contains
  "Cancelled" or "Canceled"; this program never reads it. \<^verbatim>\<open>cardActivity\<close>: the balance
  scraped from the card-activity tab, when the guarded block got that far (the block's
  handler only logs). \<^verbatim>\<open>propertyInfoEval\<close>: the property name read from the page header.
\<close>

record dialog_obs_id =
  titleCancelled :: bool
  scrollOk_id :: bool
  cardActivity :: "string option"
  iters_id :: "nat \<Rightarrow> iter_obs_id"
  propertyInfoEval :: "string res"

definition processRow_id :: "cell \<Rightarrow> cell \<Rightarrow> dialog_obs_id row_obs \<Rightarrow> sstate \<Rightarrow> sstate \<times> row_end" where
  "processRow_id pid pname row st =
     (case basicEval row of
        Throws \<Rightarrow> rowCatch st
      | Ok b \<Rightarrow>
          if reservationId b \<in> fst st then (st, RowDone)
          else
            let st1 = (insert (reservationId b) (fst st), snd st) in
            if \<not> clickOk row then rowCatch st1
            else if \<not> dialogAppears row then (st1, RowDone)
            else if \<not> scrollOk_id (dialog row) then rowCatch st1
            else
              let remainingBalance = (case cardActivity (dialog row) of
                                        None \<Rightarrow> ''N/A'' | Some t \<Rightarrow> t);
                  v = cardLoop_id (iters_id (dialog row)) 0 (None, None, None, None, ''None'') 0
              in (case propertyInfoEval (dialog row) of
                    Throws \<Rightarrow> rowCatch st1
                  | Ok propertyInfo \<Rightarrow>
                      ((fst st1,
                        snd st1 @ [activeReservation_id pid pname b v remainingBalance propertyInfo]),
                       RowDone)))"

section \<open>The page loop (the same text in both programs)\<close>

text \<open>
  What is observed in one pass of \<^verbatim>\<open>while (hasMore)\<close>: whether the table appears and its
  rows can be listed, the rows, what \<^verbatim>\<open>hasNextPage()\<close> gives, whether scrolling and
  clicking the next control succeed, and whether \<^verbatim>\<open>page.reload\<close> in the handler succeeds.
\<close>

record 'r page_obs =
  tableOk :: bool
  tableRows :: "'r list"
  nextEval :: "bool res"
  nextClickOk :: bool
  reloadOk :: bool

fun rowsLoop :: "('r \<Rightarrow> sstate \<Rightarrow> (sstate \<times> row_end) option) \<Rightarrow> 'r list \<Rightarrow> sstate \<Rightarrow> (sstate \<times> row_end) option" where
  "rowsLoop f [] st = Some (st, RowDone)"
| "rowsLoop f (row # rest) st =
     (case f row st of
        None \<Rightarrow> None
      | Some (st', RowThrew err) \<Rightarrow> Some (st', RowThrew err)
      | Some (st', RowDone) \<Rightarrow> rowsLoop f rest st')"

text \<open>
  How the \<^verbatim>\<open>try\<close> block of a pass ends: without a further page (\<^verbatim>\<open>hasMore\<close> falsy), after
  the click on the next control, or in the handler \<^verbatim>\<open>catch (pageError)\<close>.
\<close>

datatype page_end = PageLast | PageNext | PageFailed

definition afterRows :: "'r page_obs \<Rightarrow> page_end" where
  "afterRows pg =
     (case nextEval pg of
        Throws \<Rightarrow> PageFailed
      | Ok hasMore \<Rightarrow>
          if hasMore then (if nextClickOk pg then PageNext else PageFailed)
          else PageLast)"

definition pageBody ::
  "('r \<Rightarrow> sstate \<Rightarrow> (sstate \<times> row_end) option) \<Rightarrow> 'r page_obs \<Rightarrow> sstate \<Rightarrow> (sstate \<times> page_end) option" where
  "pageBody f pg st =
     (if \<not> tableOk pg then Some (st, PageFailed)
      else (case rowsLoop f (tableRows pg) st of
              None \<Rightarrow> None
            | Some (st', RowThrew err) \<Rightarrow> Some (st', PageFailed)
            | Some (st', RowDone) \<Rightarrow> Some (st', afterRows pg)))"

text \<open>
  The loop, over the observations \<open>env k\<close> of its passes. The handler reloads and the loop
  goes on, without a counter; a failing reload leaves the loop with an exception.
  \<open>None\<close>: the loop does not end.
\<close>

partial_function (option) pageLoop ::
  "('r \<Rightarrow> sstate \<Rightarrow> (sstate \<times> row_end) option) \<Rightarrow> (nat \<Rightarrow> 'r page_obs) \<Rightarrow> nat \<Rightarrow> sstate
     \<Rightarrow> (js_error + reservation list) option" where
  "pageLoop f env k st =
     (case pageBody f (env k) st of
        None \<Rightarrow> None
      | Some (st', e) \<Rightarrow>
          (case e of
             PageLast \<Rightarrow> Some (Inr (snd st'))
           | PageNext \<Rightarrow> pageLoop f env (k + 1) st'
           | PageFailed \<Rightarrow>
               if reloadOk (env k) then pageLoop f env (k + 1) st'
               else Some (Inl BrowserError)))"

declare pageLoop.simps [code]

section \<open>processReservationsPage\<close>

text \<open>
  What is observed before the page loop: the layout appears; which of the candidate
  selectors shows a search input; clicking, clearing, typing the search term and saving
  succeed; the number of guest links; the table appears; the result summary can be read.
\<close>

record setup_obs =
  layoutOk :: bool
  inputVisible :: "string \<Rightarrow> bool"
  searchEntered :: bool
  finalCount :: "nat res"
  tableVisible :: bool
  totalResultsOk :: bool

definition searchInputSelectors :: "string list" where
  "searchInputSelectors =
     [''input[name=\"searchInput\"]'', ''input.fds-field-input'', ''input[type=\"text\"]'',
      ''.fds-field-input'']"

text \<open>Every exception of the function body is caught and answered with \<^verbatim>\<open>[]\<close>.\<close>

definition processReservationsPage_by ::
  "('r \<Rightarrow> sstate \<Rightarrow> (sstate \<times> row_end) option) \<Rightarrow> setup_obs \<Rightarrow> (nat \<Rightarrow> 'r page_obs)
     \<Rightarrow> reservation list option" where
  "processReservationsPage_by f su env =
     (if \<not> layoutOk su then Some []
      else if find (inputVisible su) searchInputSelectors = None then Some []
      else if \<not> searchEntered su then Some []
      else (case finalCount su of
              Throws \<Rightarrow> Some []
            | Ok n \<Rightarrow>
                if n = 0 then Some []
                else if \<not> tableVisible su then Some []
                else if \<not> totalResultsOk su then Some []
                else (case pageLoop f env 0 ({}, []) of
                        None \<Rightarrow> None
                      | Some (Inl e) \<Rightarrow> Some []
                      | Some (Inr pageReservations) \<Rightarrow> Some pageReservations)))"

definition processReservationsPage ::
  "setup_obs \<Rightarrow> (nat \<Rightarrow> dialog_obs row_obs page_obs) \<Rightarrow> reservation list option" where
  "processReservationsPage = processReservationsPage_by processRow"

definition processReservationsPage_id ::
  "cell \<Rightarrow> cell \<Rightarrow> setup_obs \<Rightarrow> (nat \<Rightarrow> dialog_obs_id row_obs page_obs) \<Rightarrow> reservation list option" where
  "processReservationsPage_id pid pname =
     processReservationsPage_by (\<lambda>row st. Some (processRow_id pid pname row st))"

section \<open>Export at the end of a run\<close>

text \<open>
  The last step of \<^verbatim>\<open>loginToExpediaPartner\<close>, reached when no property raised. A
  spreadsheet cell receives a text; the id-keyed program also writes the property id as
  it came from the input sheet. \<^verbatim>\<open>x || "N/A"\<close> replaces a missing or empty value.
\<close>

definition textOr :: "string option \<Rightarrow> string \<Rightarrow> cell" where
  "textOr a d = CStr (orElse a d)"

definition cellOr :: "cell option \<Rightarrow> string \<Rightarrow> cell" where
  "cellOr a d = (case a of None \<Rightarrow> CStr d | Some c \<Rightarrow> if truthy c then c else CStr d)"

definition yesNo :: "bool \<Rightarrow> cell" where
  "yesNo b = CStr (if b then ''Yes'' else ''No'')"

definition headerRow :: "cell list" where
  "headerRow = map CStr
     [''Guest Name'', ''Reservation ID'', ''Confirmation Code'', ''Check-in Date'',
      ''Check-out Date'', ''Room Type'', ''Booking Amount'', ''Booked Date'',
      ''Card Number'', ''Expiry Date'', ''CVV'', ''Has Card Info'', ''Has Payment Info'',
      ''Total Guest Payment'', ''Cancellation Fee'', ''Expedia Compensation'',
      ''Total Payout'', ''Amount to charge/refund'', ''Reason of charge'', ''Status'']"

definition exportRow :: "reservation \<Rightarrow> cell list" where
  "exportRow res =
     [CStr (r_guestName res), CStr (r_reservationId res), CStr (r_confirmationCode res),
      CStr (r_checkInDate res), CStr (r_checkOutDate res), CStr (r_roomType res),
      CStr (r_bookingAmount res), CStr (r_bookedDate res),
      textOr (cardNumber res) ''N/A'', textOr (expiryDate res) ''N/A'',
      textOr (cvv res) ''N/A'', yesNo (hasCardInfo res), yesNo (hasPaymentInfo res),
      textOr (totalGuestPayment res) ''N/A'', textOr (cancellationFee res) ''N/A'',
      textOr (expediaCompensation res) ''N/A'', textOr (totalPayout res) ''N/A'',
      textOr (Some (amountToChargeOrRefund res)) ''N/A'',
      textOr (reasonOfCharge res) ''N/A'', textOr (status res) ''Active'']"

definition headerRow_id :: "cell list" where
  "headerRow_id = map CStr
     [''Property ID'', ''Property Name'',
      ''Guest Name'', ''Reservation ID'', ''Confirmation Code'', ''Check-in Date'',
      ''Check-out Date'', ''Room Type'', ''Booking Amount'', ''Booked Date'',
      ''Card Number'', ''Expiry Date'', ''CVV'', ''Has Card Info'', ''Has Payment Info'',
      ''Total Guest Payment'', ''Cancellation Fee'', ''Expedia Compensation'',
      ''Total Payout'', ''Details'', ''Status'', ''Amount to charge/refund'']"

definition exportRow_id :: "reservation \<Rightarrow> cell list" where
  "exportRow_id res =
     [cellOr (propertyId res) ''N/A'', cellOr (propertyName res) ''N/A'',
      CStr (r_guestName res), CStr (r_reservationId res), CStr (r_confirmationCode res),
      CStr (r_checkInDate res), CStr (r_checkOutDate res), CStr (r_roomType res),
      CStr (r_bookingAmount res), CStr (r_bookedDate res),
      textOr (cardNumber res) ''N/A'', textOr (expiryDate res) ''N/A'',
      textOr (cvv res) ''N/A'', yesNo (hasCardInfo res), yesNo (hasPaymentInfo res),
      textOr (totalGuestPayment res) ''N/A'', textOr (cancellationFee res) ''N/A'',
      textOr (expediaCompensation res) ''N/A'', textOr (totalPayout res) ''N/A'',
      textOr (Some (amountToChargeOrRefund res)) ''N/A'',
      textOr (status res) ''Active'', textOr (amount res) ''N/A'']"

text \<open>\<^verbatim>\<open>now.toISOString().replace(/[:.]/g, "-")\<close>, for the ISO text \<open>isoTime\<close> of the clock.\<close>

definition timestamp :: "string \<Rightarrow> string" where
  "timestamp isoTime = map (\<lambda>c. if c = CHR '':'' \<or> c = CHR ''.'' then CHR ''-'' else c) isoTime"

text \<open>
  The files written by the export step, each with its name and the rows of its sheet
  (\<^verbatim>\<open>wsData\<close>): none unless \<^verbatim>\<open>allReservations.length > 0\<close>.
\<close>

definition exportFiles ::
  "cell list \<Rightarrow> (reservation \<Rightarrow> cell list) \<Rightarrow> string \<Rightarrow> reservation list
     \<Rightarrow> (string \<times> cell list list) list" where
  "exportFiles hdr toRow isoTime allReservations =
     (if length allReservations > 0
      then [(''reservations_'' @ timestamp isoTime @ ''.xlsx'', hdr # map toRow allReservations)]
      else [])"

definition exportReservations :: "string \<Rightarrow> reservation list \<Rightarrow> (string \<times> cell list list) list" where
  "exportReservations = exportFiles headerRow exportRow"

definition exportReservations_id :: "string \<Rightarrow> reservation list \<Rightarrow> (string \<times> cell list list) list" where
  "exportReservations_id = exportFiles headerRow_id exportRow_id"

section \<open>The work list as the specification describes it\<close>

text \<open>
  One entry per distinct property, in first-seen order; the search terms of an entry
  are the reservation ids of the property's rows, in row order, duplicates kept. Rows
  are grouped by the key their property cell converts to, and rows without a property do
  not count. This is the description, to be compared with \<^verbatim>\<open>getDataFromSheet\<close>.
\<close>

definition keyOf :: "string \<Rightarrow> row \<Rightarrow> string" where
  "keyOf col item = propertyKey (item col)"

definition firstSeen :: "'a list \<Rightarrow> 'a list" where
  "firstSeen xs = rev (remdups (rev xs))"

definition rowsOf :: "string \<Rightarrow> string \<Rightarrow> row list \<Rightarrow> row list" where
  "rowsOf col k items = filter (\<lambda>item. keyOf col item = k) items"

definition workItem :: "string \<Rightarrow> row list \<Rightarrow> string \<Rightarrow> hotel" where
  "workItem col items k =
     \<lparr>name = hd (rowsOf col k items) col,
      idList = map (\<lambda>item. item ''Reservation ID'') (rowsOf col k items)\<rparr>"

definition workList :: "string \<Rightarrow> row list \<Rightarrow> hotel list" where
  "workList col items =
     (let kept = filter (\<lambda>item. truthy (item col)) items
      in map (workItem col kept) (firstSeen (map (keyOf col) kept)))"

text \<open>
  The position of the first occurrence of a key, and the state of the loop of
  \<^verbatim>\<open>getDataFromSheet\<close> after the rows \<open>ps\<close>, provided it raised on none of them.
\<close>

fun indexOf :: "'a \<Rightarrow> 'a list \<Rightarrow> nat" where
  "indexOf x [] = 0"
| "indexOf x (y # ys) = (if x = y then 0 else Suc (indexOf x ys))"

definition groupState :: "string \<Rightarrow> row list \<Rightarrow> group_state" where
  "groupState col ps =
     ((\<lambda>k. if k \<in> set (map (keyOf col) ps)
            then Some (Suc (indexOf k (firstSeen (map (keyOf col) ps)))) else None),
      map (workItem col ps) (firstSeen (map (keyOf col) ps)),
      length (firstSeen (map (keyOf col) ps)))"

section \<open>The invariant of the session state\<close>

text \<open>
  The records collected so far carry pairwise different reservation ids, and each of
  these ids is in the set of processed ids.
\<close>

definition idsKept :: "sstate \<Rightarrow> bool" where
  "idsKept st = (distinct (map r_reservationId (snd st)) \<and> r_reservationId ` set (snd st) \<subseteq> fst st)"




text \<open>The id \<open>x\<close> is in the set of processed ids and no collected record carries it.\<close>

definition idClosed :: "string \<Rightarrow> sstate \<Rightarrow> bool" where
  "idClosed x st = (x \<in> fst st \<and> x \<notin> r_reservationId ` set (snd st))"

section \<open>When the loops come to an end\<close>

text \<open>
  The checks before the page loop all pass: otherwise the call returns \<^verbatim>\<open>[]\<close> at once.
\<close>

definition setupReady :: "setup_obs \<Rightarrow> bool" where
  "setupReady su =
     (layoutOk su \<and> find (inputVisible su) searchInputSelectors \<noteq> None \<and> searchEntered su \<and>
      (case finalCount su of Throws \<Rightarrow> False | Ok n \<Rightarrow> n \<noteq> 0) \<and>
      tableVisible su \<and> totalResultsOk su)"

text \<open>
  After a pass that ended with \<open>e\<close> the loop goes on (a click on the next control, or a
  failure answered by a reload that succeeds), or it is left (no further page, or a
  failure whose reload fails).
\<close>

definition continues :: "'r page_obs \<Rightarrow> page_end \<Rightarrow> bool" where
  "continues pg e = (e = PageNext \<or> (e = PageFailed \<and> reloadOk pg))"

definition endsLoop :: "'r page_obs \<Rightarrow> page_end \<Rightarrow> bool" where
  "endsLoop pg e = (e = PageLast \<or> (e = PageFailed \<and> \<not> reloadOk pg))"

text \<open>
  The state in which pass \<open>k + j\<close> starts, when the loop enters pass \<open>k\<close> in state \<open>st\<close>:
  defined when each of the passes \<open>k, \<dots>, k + j - 1\<close> came to its end and the loop
  went on after it.
\<close>

fun passState ::
  "('r \<Rightarrow> sstate \<Rightarrow> (sstate \<times> row_end) option) \<Rightarrow> (nat \<Rightarrow> 'r page_obs) \<Rightarrow> nat \<Rightarrow> sstate \<Rightarrow> nat
     \<Rightarrow> sstate option" where
  "passState f env k st 0 = Some st"
| "passState f env k st (Suc j) =
     (case pageBody f (env k) st of
        None \<Rightarrow> None
      | Some (st', e) \<Rightarrow> if continues (env k) e then passState f env (k + 1) st' j else None)"

text \<open>
  A pass of the name-keyed retry loop yields data when the card read returns an object
  or, without one, the payment read does; it raises when one of the reads it makes
  rejects. The retry loop is certain to end within \<open>m\<close> passes when one of them yields
  data or three of them raise.
\<close>

definition yieldsData :: "iter_obs \<Rightarrow> bool" where
  "yieldsData ob =
     (case cardEval ob of
        Throws \<Rightarrow> False
      | Ok ct \<Rightarrow>
          cardData_of ct \<noteq> None \<or>
          (case paymentEval ob of Throws \<Rightarrow> False | Ok pt \<Rightarrow> paymentData_of pt \<noteq> None))"

definition raises :: "iter_obs \<Rightarrow> bool" where
  "raises ob =
     (case cardEval ob of
        Throws \<Rightarrow> True
      | Ok ct \<Rightarrow>
          if cardData_of ct = None
          then (case paymentEval ob of Throws \<Rightarrow> True | Ok pt \<Rightarrow> additionalEval ob = Throws)
          else additionalEval ob = Throws)"

definition retryEndsWithin :: "(nat \<Rightarrow> iter_obs) \<Rightarrow> nat \<Rightarrow> bool" where
  "retryEndsWithin obs m =
     ((\<exists>i\<in>set [0..<m]. yieldsData (obs i)) \<or>
      3 \<le> length (filter (\<lambda>i. raises (obs i)) [0..<m]))"

section \<open>Sample inputs\<close>

text \<open>Sheet rows with a property name, a property id and a reservation id.\<close>

definition sheetRow :: "cell \<Rightarrow> cell \<Rightarrow> row" where
  "sheetRow p r = (\<lambda>header. if header = ''Property Name'' \<or> header = ''Property ID'' then p
                              else if header = ''Reservation ID'' then r else Undefined)"

definition sheet_grouped :: "row list" where
  "sheet_grouped =
     [sheetRow (CStr ''Hotel A'') (CStr ''R1''), sheetRow (CStr []) (CStr ''R2''),
      sheetRow (CStr ''Hotel B'') (CStr ''R3''), sheetRow Undefined (CStr ''R4''),
      sheetRow (CStr ''Hotel A'') (CStr ''R1'')]"

definition sheet_constructor :: "row list" where
  "sheet_constructor =
     [sheetRow (CStr ''Hotel A'') (CStr ''R1''), sheetRow (CStr ''constructor'') (CStr ''R2'')]"

text \<open>Table rows, dialogs and pages of a portal session.\<close>

definition basic :: "string \<Rightarrow> basicData" where
  "basic rid = \<lparr>guestName = ''Guest'', reservationId = rid, confirmationCode = ''C'',
                checkInDate = ''2025-01-01'', checkOutDate = ''2025-01-02'', roomType = ''King'',
                bookingAmount = ''100.00'', bookedDate = ''2024-12-01''\<rparr>"

definition iter_card :: iter_obs where
  "iter_card = \<lparr>cardEval = Ok (''4111'', ''12/30'', ''123''),
                paymentEval = Ok ([], [], []),
                additionalEval = Ok (''12.50'', [])\<rparr>"

definition iter_nothing :: iter_obs where
  "iter_nothing = \<lparr>cardEval = Ok ([], [], []),
                   paymentEval = Ok ([], [], []),
                   additionalEval = Ok ([], [])\<rparr>"

definition dialog_card :: dialog_obs where
  "dialog_card = \<lparr>isCanceledEval = Ok False, cancelWaitsOk = True, cancelSections = Ok [],
                  scrollOk = True, iters = (\<lambda>i. iter_card)\<rparr>"

definition dialog_cancelled :: dialog_obs where
  "dialog_cancelled =
     \<lparr>isCanceledEval = Ok True, cancelWaitsOk = True,
      cancelSections = Ok [(''Cancellation fee'', Ok (Some ''50.00'')),
                           (''Your total payout'', Ok (Some ''40.00''))],
      scrollOk = True, iters = (\<lambda>i. iter_card)\<rparr>"

definition dialog_empty :: dialog_obs where
  "dialog_empty = \<lparr>isCanceledEval = Ok False, cancelWaitsOk = True, cancelSections = Ok [],
                   scrollOk = True, iters = (\<lambda>i. iter_nothing)\<rparr>"

definition row_ok :: "string \<Rightarrow> 'd \<Rightarrow> 'd row_obs" where
  "row_ok rid d = \<lparr>basicEval = Ok (basic rid), clickOk = True, dialogAppears = True, dialog = d\<rparr>"

definition row_no_dialog :: "string \<Rightarrow> 'd \<Rightarrow> 'd row_obs" where
  "row_no_dialog rid d =
     \<lparr>basicEval = Ok (basic rid), clickOk = True, dialogAppears = False, dialog = d\<rparr>"

definition row_click_throws :: "string \<Rightarrow> 'd \<Rightarrow> 'd row_obs" where
  "row_click_throws rid d =
     \<lparr>basicEval = Ok (basic rid), clickOk = False, dialogAppears = True, dialog = d\<rparr>"

definition iter_both_id :: iter_obs_id where
  "iter_both_id = \<lparr>evcEval = Ok (Some ''Active''),
                   cardEval_id = Ok (''4111'', ''12/30'', ''123'', ''Charge after check-in''),
                   paymentEval_id = Ok (Some (''50.00'', [], ''40.00'', ''90.00'')),
                   additionalEval_id = Ok (''12.50'', [])\<rparr>"

definition dialog_both_id :: dialog_obs_id where
  "dialog_both_id = \<lparr>titleCancelled = False, scrollOk_id = True, cardActivity = None,
                     iters_id = (\<lambda>i. iter_both_id), propertyInfoEval = Ok ''Hotel A''\<rparr>"

definition iter_nothing_id :: iter_obs_id where
  "iter_nothing_id = \<lparr>evcEval = Ok None,
                      cardEval_id = Ok ([], [], [], []),
                      paymentEval_id = Ok None,
                      additionalEval_id = Ok ([], [])\<rparr>"

definition dialog_cancelled_id :: dialog_obs_id where
  "dialog_cancelled_id = \<lparr>titleCancelled = True, scrollOk_id = True, cardActivity = None,
                          iters_id = (\<lambda>i. iter_nothing_id), propertyInfoEval = Ok ''Hotel A''\<rparr>"

definition last_page :: "'r list \<Rightarrow> 'r page_obs" where
  "last_page rs = \<lparr>tableOk = True, tableRows = rs, nextEval = Ok False, nextClickOk = True,
                   reloadOk = True\<rparr>"

definition more_page :: "'r list \<Rightarrow> 'r page_obs" where
  "more_page rs = \<lparr>tableOk = True, tableRows = rs, nextEval = Ok True, nextClickOk = True,
                   reloadOk = True\<rparr>"

definition stuck_page :: "'r page_obs" where
  "stuck_page = \<lparr>tableOk = False, tableRows = [], nextEval = Ok False, nextClickOk = True,
                 reloadOk = True\<rparr>"

definition setup_ok :: setup_obs where
  "setup_ok = \<lparr>layoutOk = True, inputVisible = (\<lambda>selector. True), searchEntered = True,
               finalCount = Ok 1, tableVisible = True, totalResultsOk = True\<rparr>"

definition two_passes :: "'r page_obs \<Rightarrow> 'r page_obs \<Rightarrow> nat \<Rightarrow> 'r page_obs" where
  "two_passes first second k = (if k = 0 then first else second)"

definition session_two_pages :: "nat \<Rightarrow> dialog_obs row_obs page_obs" where
  "session_two_pages =
     two_passes (more_page [row_ok ''R1'' dialog_card, row_ok ''R2'' dialog_cancelled])
                (last_page [row_ok ''R1'' dialog_card, row_ok ''R3'' dialog_card])"

definition session_two_pages_id :: "nat \<Rightarrow> dialog_obs_id row_obs page_obs" where
  "session_two_pages_id =
     two_passes (more_page [row_ok ''R1'' dialog_both_id, row_ok ''R2'' dialog_cancelled_id])
                (last_page [row_ok ''R1'' dialog_both_id, row_ok ''R3'' dialog_both_id])"

text \<open>The loop variables after a pass over \<open>iter_card\<close>, and over \<open>iter_both_id\<close>.\<close>

definition vars_card :: card_vars where
  "vars_card = (Some (''4111'', ''12/30'', ''123''), None, Some ''12.50'', Some [], 0)"

definition vars_both_id :: card_vars_id where
  "vars_both_id =
     (Some (''4111'', ''12/30'', ''123'', ''Charge after check-in''),
      Some (''90.00'', ''50.00'', [], ''40.00''), Some ''12.50'', Some [], ''Active'')"

definition vars_nothing_id :: card_vars_id where
  "vars_nothing_id = (None, None, Some [], Some [], ''None'')"


definition session_cancelled_id :: "nat \<Rightarrow> dialog_obs_id row_obs page_obs" where
  "session_cancelled_id = (\<lambda>k. last_page [row_ok ''R2'' dialog_cancelled_id])"


definition record_cancelled_id :: reservation where
  "record_cancelled_id =
     activeReservation_id (CNum True ''7'') (CNum True ''7'') (basic ''R2'') vars_nothing_id ''N/A'' ''Hotel A''"

text \<open>
  A dialog whose card read rejects in every pass of the retry loop, and a page with one
  row whose dialog shows a card and one row with this dialog.
\<close>

definition iter_raising :: iter_obs where
  "iter_raising = \<lparr>cardEval = Throws, paymentEval = Ok ([], [], []),
                   additionalEval = Ok ([], [])\<rparr>"

definition dialog_raising :: dialog_obs where
  "dialog_raising = \<lparr>isCanceledEval = Ok False, cancelWaitsOk = True, cancelSections = Ok [],
                     scrollOk = True, iters = (\<lambda>i. iter_raising)\<rparr>"

definition page_raising :: "dialog_obs row_obs page_obs" where
  "page_raising = last_page [row_ok ''R1'' dialog_card, row_ok ''R2'' dialog_raising]"

text \<open>
  Three passes of the id-keyed retry loop that read nothing, followed by passes that
  would read a card and a payment summary.
\<close>

definition iters_late_id :: "nat \<Rightarrow> iter_obs_id" where
  "iters_late_id = (\<lambda>i. if i < 3 then iter_nothing_id else iter_both_id)"

text \<open>
  A page on which the click on the guest link of R1 raises, in every pass; a session in
  which the table never appears; and a session in which the dialog of R1 does not open on
  the first page, while the second page shows R1 again.
\<close>

definition session_click_throws :: "nat \<Rightarrow> dialog_obs row_obs page_obs" where
  "session_click_throws =
     (\<lambda>k. last_page [row_click_throws ''R1'' dialog_card, row_ok ''R2'' dialog_card])"

definition session_click_throws_id :: "nat \<Rightarrow> dialog_obs_id row_obs page_obs" where
  "session_click_throws_id =
     (\<lambda>k. last_page [row_click_throws ''R1'' dialog_both_id, row_ok ''R2'' dialog_both_id])"

definition session_stuck :: "nat \<Rightarrow> 'r page_obs" where
  "session_stuck = (\<lambda>k. stuck_page)"

definition session_no_dialog :: "nat \<Rightarrow> dialog_obs row_obs page_obs" where
  "session_no_dialog =
     two_passes (more_page [row_no_dialog ''R1'' dialog_card, row_ok ''R2'' dialog_card])
                (last_page [row_ok ''R1'' dialog_card, row_ok ''R3'' dialog_card])"

definition session_no_dialog_id :: "nat \<Rightarrow> dialog_obs_id row_obs page_obs" where
  "session_no_dialog_id =
     two_passes (more_page [row_no_dialog ''R1'' dialog_both_id, row_ok ''R2'' dialog_both_id])
                (last_page [row_ok ''R1'' dialog_both_id, row_ok ''R3'' dialog_both_id])"

section \<open>Properties\<close>

lemma addRows_filter_truthy:
  "addRows col (filter (\<lambda>item. truthy (item col)) items) st = addRows col items st"
  by (induction items arbitrary: st) (auto simp: addRow_def split: sum.splits)

subsection \<open>What a row can do to the session state\<close>

lemma cardStep_one:
  "cardStep ob (None, None, remaining, refund, retries) = (c, p, rest) \<Longrightarrow> c = None \<or> p = None"
  by (auto simp: cardStep_def readAdditional_def split: res.splits if_splits prod.splits)

lemma cardLoop_one_aux:
  assumes run: "cardLoop obs i v = Some w"
  shows "(fst v = None \<or> fst (snd v) = None) \<longrightarrow> (fst w = None \<or> fst (snd w) = None)"
proof (induct rule: cardLoop.raw_induct [OF _ run])
  case (1 loop obs i v w)
  obtain c p remaining refund retries where v: "v = (c, p, remaining, refund, retries)"
    by (cases v) auto
  show ?case
  proof (cases "c = None \<and> p = None \<and> retries < 3")
    case True
    with "1"(2) v have again: "loop obs (i + 1) (cardStep (obs i) v) = Some w" by simp
    obtain c' p' rest' where s: "cardStep (obs i) v = (c', p', rest')"
      by (cases "cardStep (obs i) v") auto
    with True v have "c' = None \<or> p' = None" using cardStep_one by blast
    with "1"(1) [OF again] s show ?thesis by simp
  next
    case False
    with "1"(2) v have "w = v" by auto
    then show ?thesis by simp
  qed
qed

lemma cardLoop_one:
  "cardLoop obs 0 (None, None, None, None, 0) = Some (c, p, rest) \<Longrightarrow> c = None \<or> p = None"
  using cardLoop_one_aux [of obs 0 "(None, None, None, None, 0)" "(c, p, rest)"] by simp

lemma canceledBranch_shape:
  "canceledBranch d b st = st \<or>
   (\<exists>info. canceledBranch d b st = (fst st, snd st @ [canceledReservation b info]))"
  by (auto simp: canceledBranch_def split: res.splits)

text \<open>
  A row leaves the state alone, or it is a new row: its id enters the set, and at most
  one record, carrying that id, is appended.
\<close>

lemma processRow_shape:
  assumes "processRow row st = Some (st', e)"
  shows "st' = st \<or>
     (\<exists>b. basicEval row = Ok b \<and> reservationId b \<notin> fst st \<and>
          fst st' = insert (reservationId b) (fst st) \<and>
          (snd st' = snd st \<or>
           (\<exists>info. isCanceledEval (dialog row) = Ok True \<and>
                   snd st' = snd st @ [canceledReservation b info]) \<or>
           (\<exists>c p rest. isCanceledEval (dialog row) = Ok False \<and> (c = None \<or> p = None) \<and>
                   snd st' = snd st @ [activeReservation b (c, p, rest)])))"
proof (cases "basicEval row")
  case Throws
  with assms show ?thesis by (simp add: processRow_def rowCatch_def)
next
  case (Ok b)
  show ?thesis
  proof (cases "reservationId b \<in> fst st")
    case True
    with assms Ok show ?thesis by (simp add: processRow_def)
  next
    case False
    let ?st1 = "(insert (reservationId b) (fst st), snd st)"
    have cb: "canceledBranch (dialog row) b ?st1 = ?st1 \<or>
       (\<exists>info. canceledBranch (dialog row) b ?st1 = (fst ?st1, snd ?st1 @ [canceledReservation b info]))"
      by (rule canceledBranch_shape)
    from assms Ok False cb cardLoop_one [of "iters (dialog row)"] show ?thesis
      by (auto simp: processRow_def rowCatch_def Let_def
               split: if_splits res.splits bool.splits option.splits) blast+
  qed
qed

lemma processRow_id_shape:
  assumes "processRow_id pid pname row st = (st', e)"
  shows "st' = st \<or>
     (\<exists>b. basicEval row = Ok b \<and> reservationId b \<notin> fst st \<and>
          fst st' = insert (reservationId b) (fst st) \<and>
          (snd st' = snd st \<or>
           (\<exists>v balance info.
                   snd st' = snd st @ [activeReservation_id pid pname b v balance info])))"
proof (cases "basicEval row")
  case Throws
  with assms show ?thesis by (simp add: processRow_id_def rowCatch_def)
next
  case (Ok b)
  show ?thesis
  proof (cases "snd st' = snd st")
    case True
    with assms Ok show ?thesis
      by (auto simp: processRow_id_def rowCatch_def Let_def split: if_splits res.splits)
  next
    case False
    with assms Ok obtain info where
      "propertyInfoEval (dialog row) = Ok info"
      "reservationId b \<notin> fst st"
      "st' = (insert (reservationId b) (fst st),
              snd st @ [activeReservation_id pid pname b
                (cardLoop_id (iters_id (dialog row)) 0 (None, None, None, None, ''None'') 0)
                (case cardActivity (dialog row) of None \<Rightarrow> ''N/A'' | Some t \<Rightarrow> t) info])"
      by (auto simp: processRow_id_def rowCatch_def Let_def split: if_splits res.splits)
    with Ok show ?thesis by fastforce
  qed
qed

lemma r_reservationId_canceled [simp]:
  "r_reservationId (canceledReservation b info) = reservationId b"
  by (simp add: canceledReservation_def split: prod.splits)

lemma r_reservationId_active [simp]:
  "r_reservationId (activeReservation b v) = reservationId b"
  by (simp add: activeReservation_def split: prod.splits)

lemma r_reservationId_active_id [simp]:
  "r_reservationId (activeReservation_id pid pname b v balance info) = reservationId b"
  by (simp add: activeReservation_id_def split: prod.splits)

subsection \<open>Predicates kept by every row are kept by the loops\<close>

lemma rowsLoop_preserves:
  assumes step: "\<And>row st st' e. P st \<Longrightarrow> f row st = Some (st', e) \<Longrightarrow> P st'"
  shows "P st \<Longrightarrow> rowsLoop f rs st = Some (st', e) \<Longrightarrow> P st'"
proof (induction rs arbitrary: st)
  case Nil
  then show ?case by simp
next
  case (Cons row rest)
  from Cons.prems(2) obtain st1 e1 where f1: "f row st = Some (st1, e1)"
    by (auto split: option.splits)
  have P1: "P st1" using step [OF Cons.prems(1) f1] .
  show ?case
  proof (cases e1)
    case RowDone
    with Cons.prems(2) f1 have "rowsLoop f rest st1 = Some (st', e)" by simp
    then show ?thesis using Cons.IH [OF P1] by simp
  next
    case (RowThrew err)
    with Cons.prems(2) f1 have "st' = st1" by simp
    then show ?thesis using P1 by simp
  qed
qed

lemma pageBody_preserves:
  assumes step: "\<forall>row st st' e. P st \<longrightarrow> f row st = Some (st', e) \<longrightarrow> P st'"
    and P: "P st" and body: "pageBody f pg st = Some (st', e)"
  shows "P st'"
proof (cases "tableOk pg")
  case False
  with body have "st' = st" by (simp add: pageBody_def)
  with P show ?thesis by simp
next
  case True
  with body obtain e1 where "rowsLoop f (tableRows pg) st = Some (st', e1)"
    by (auto simp: pageBody_def split: option.splits row_end.splits)
  moreover have "\<And>row st st' e. P st \<Longrightarrow> f row st = Some (st', e) \<Longrightarrow> P st'"
    using step by blast
  ultimately show ?thesis using P by (rule rowsLoop_preserves [rotated 2])
qed

lemma pageLoop_preserves_aux:
  assumes run: "pageLoop f env k st = Some out"
  shows "(\<forall>row st st' e. P st \<longrightarrow> f row st = Some (st', e) \<longrightarrow> P st') \<longrightarrow> P st \<longrightarrow>
   (\<forall>recs. out = Inr recs \<longrightarrow> (\<exists>ids. P (ids, recs)))"
proof (induct rule: pageLoop.raw_induct [OF _ run])
  case (1 loop f env k st out)
  show ?case
  proof (intro impI allI)
    fix recs
    assume step: "\<forall>row st st' e. P st \<longrightarrow> f row st = Some (st', e) \<longrightarrow> P st'"
      and P: "P st" and out: "out = Inr recs"
    from "1"(2) obtain st' e where pb: "pageBody f (env k) st = Some (st', e)"
      by (auto split: option.splits)
    have P': "P st'" using step P pb by (rule pageBody_preserves)
    show "\<exists>ids. P (ids, recs)"
    proof (cases e)
      case PageLast
      with "1"(2) pb out have "recs = snd st'" by simp
      with P' show ?thesis by (metis prod.collapse)
    next
      case PageNext
      with "1"(2) pb have "loop f env (k + 1) st' = Some out" by simp
      from "1"(1) [OF this] step P' out show ?thesis by simp
    next
      case PageFailed
      with "1"(2) pb out have "loop f env (k + 1) st' = Some out"
        by (simp split: if_splits)
      from "1"(1) [OF this] step P' out show ?thesis by simp
    qed
  qed
qed

lemma pageLoop_preserves:
  assumes "pageLoop f env k st = Some (Inr recs)" and "P st"
    and "\<forall>row st st' e. P st \<longrightarrow> f row st = Some (st', e) \<longrightarrow> P st'"
  shows "\<exists>ids. P (ids, recs)"
  using pageLoop_preserves_aux [OF assms(1), of P] assms(2,3) by simp

lemma processReservationsPage_by_preserves:
  assumes run: "processReservationsPage_by f su env = Some out" and P0: "P ({}, [])"
    and step: "\<forall>row st st' e. P st \<longrightarrow> f row st = Some (st', e) \<longrightarrow> P st'"
  shows "\<exists>ids. P (ids, out)"
proof (cases "\<exists>recs. pageLoop f env 0 ({}, []) = Some (Inr recs) \<and> out = recs")
  case True
  then show ?thesis using pageLoop_preserves [of f env 0 "({}, [])" out P] P0 step by blast
next
  case False
  with run have "out = []"
    by (auto simp: processReservationsPage_by_def split: if_splits res.splits option.splits sum.splits)
  with P0 show ?thesis by blast
qed

subsection \<open>The invariant is kept by every row\<close>

lemma processRow_idsKept:
  "\<forall>row st st' e. idsKept st \<longrightarrow> processRow row st = Some (st', e) \<longrightarrow> idsKept st'"
proof (intro allI impI)
  fix row st st' e
  assume k: "idsKept st" and r: "processRow row st = Some (st', e)"
  from processRow_shape [OF r] k show "idsKept st'"
    by (auto simp: idsKept_def image_subset_iff)
qed

lemma processRow_id_idsKept:
  "\<forall>row st st' e. idsKept st \<longrightarrow> Some (processRow_id pid pname row st) = Some (st', e) \<longrightarrow> idsKept st'"
proof (intro allI impI)
  fix row st st' e
  assume k: "idsKept st" and r: "Some (processRow_id pid pname row st) = Some (st', e)"
  then have "processRow_id pid pname row st = (st', e)" by simp
  from processRow_id_shape [OF this] k show "idsKept st'"
    by (auto simp: idsKept_def image_subset_iff)
qed

subsection \<open>Runs of the sample sessions\<close>

lemmas pass_eval =
  pageLoop.simps [of _ _ 0] pageLoop.simps [of _ _ 1] pageLoop.simps [of _ _ "Suc 0"]
  processReservationsPage_def processReservationsPage_id_def processReservationsPage_by_def
  setup_ok_def searchInputSelectors_def pageBody_def afterRows_def
  last_page_def more_page_def stuck_page_def two_passes_def
  row_ok_def row_no_dialog_def row_click_throws_def rowCatch_def

lemmas row_eval =
  processRow_def canceledBranch_def paymentInfo_def getCurrencyValue_def
  dialog_card_def dialog_cancelled_def dialog_empty_def basic_def

lemmas row_id_eval =
  processRow_id_def dialog_both_id_def dialog_cancelled_id_def basic_def

lemma cardLoop_card: "cardLoop (\<lambda>i. iter_card) 0 (None, None, None, None, 0) = Some vars_card"
  by (simp add: cardLoop.simps cardStep_def readAdditional_def iter_card_def cardData_of_def
        vars_card_def)

lemma cardLoop_both_id:
  "cardLoop_id (\<lambda>i. iter_both_id) 0 (None, None, None, None, ''None'') 0 = vars_both_id"
  by (simp add: cardLoop_id.simps cardStep_id_def readPayment_id_def iter_both_id_def
        cardData_id_of_def paymentData_id_of_def vars_both_id_def)

lemma cardLoop_nothing_id:
  "cardLoop_id (\<lambda>i. iter_nothing_id) 0 (None, None, None, None, ''None'') 0 = vars_nothing_id"
  by (simp add: cardLoop_id.simps cardStep_id_def readPayment_id_def iter_nothing_id_def
        cardData_id_of_def paymentData_id_of_def vars_nothing_id_def)

lemma session_two_pages_run:
  "processReservationsPage setup_ok session_two_pages =
     Some [activeReservation (basic ''R1'') vars_card,
           canceledReservation (basic ''R2'') (''50.00'', ''0.00'', ''40.00''),
           activeReservation (basic ''R3'') vars_card]"
  by (simp add: session_two_pages_def pass_eval row_eval cardLoop_card)

lemma session_two_pages_id_run:
  "processReservationsPage_id (CNum True ''7'') (CNum True ''7'') setup_ok session_two_pages_id =
     Some [activeReservation_id (CNum True ''7'') (CNum True ''7'') (basic ''R1'') vars_both_id ''N/A'' ''Hotel A'',
           activeReservation_id (CNum True ''7'') (CNum True ''7'') (basic ''R2'') vars_nothing_id ''N/A'' ''Hotel A'',
           activeReservation_id (CNum True ''7'') (CNum True ''7'') (basic ''R3'') vars_both_id ''N/A'' ''Hotel A'']"
  by (simp add: session_two_pages_id_def pass_eval row_id_eval cardLoop_both_id
        cardLoop_nothing_id)

subsection \<open>No reservation id twice\<close>

text \<open>
  Claim C1. Within one call of \<^verbatim>\<open>processReservationsPage\<close>, in the name-keyed and in the
  id-keyed program, no two records of the returned array share a reservation id,
  whatever the portal shows: the same id on several pages, or a page processed again
  after a reload.
\<close>

theorem reservation_ids_distinct:
  "(processReservationsPage su env = Some out \<longrightarrow> distinct (map r_reservationId out)) \<and>
   (processReservationsPage_id pid pname su env' = Some out' \<longrightarrow>
      distinct (map r_reservationId out'))"
proof (intro conjI impI)
  assume "processReservationsPage su env = Some out"
  then have "processReservationsPage_by processRow su env = Some out"
    by (simp add: processReservationsPage_def)
  moreover have "idsKept ({}, [])" by (simp add: idsKept_def)
  ultimately have "\<exists>ids. idsKept (ids, out)"
    using processRow_idsKept by (rule processReservationsPage_by_preserves)
  then show "distinct (map r_reservationId out)" by (simp add: idsKept_def)
next
  assume "processReservationsPage_id pid pname su env' = Some out'"
  then have "processReservationsPage_by (\<lambda>row st. Some (processRow_id pid pname row st)) su env'
               = Some out'"
    by (simp add: processReservationsPage_id_def)
  moreover have "idsKept ({}, [])" by (simp add: idsKept_def)
  ultimately have "\<exists>ids. idsKept (ids, out')"
    using processRow_id_idsKept [of pid pname] by (rule processReservationsPage_by_preserves)
  then show "distinct (map r_reservationId out')" by (simp add: idsKept_def)
qed

text \<open>
  A session of two pages whose second page shows reservation R1 again: three records,
  with the ids R1, R2 and R3.
\<close>

theorem reservation_ids_distinct_witness:
  "map r_reservationId (the (processReservationsPage setup_ok session_two_pages))
     = [''R1'', ''R2'', ''R3''] \<and>
   distinct (map r_reservationId (the (processReservationsPage setup_ok session_two_pages))) \<and>
   distinct (map r_reservationId
     (the (processReservationsPage_id (CNum True ''7'') (CNum True ''7'') setup_ok session_two_pages_id)))"
proof -
  note run = session_two_pages_run and run_id = session_two_pages_id_run
  have "distinct (map r_reservationId (the (processReservationsPage setup_ok session_two_pages)))"
    using reservation_ids_distinct [THEN conjunct1, rule_format, OF run] by (simp only: run option.sel)
  moreover have "distinct (map r_reservationId
     (the (processReservationsPage_id (CNum True ''7'') (CNum True ''7'') setup_ok session_two_pages_id)))"
    using reservation_ids_distinct [THEN conjunct2, rule_format, OF run_id]
    by (simp only: run_id option.sel)
  moreover have "map r_reservationId (the (processReservationsPage setup_ok session_two_pages))
     = [''R1'', ''R2'', ''R3'']"
    by (simp add: run basic_def)
  ultimately show ?thesis by blast
qed

subsection \<open>The work list\<close>

text \<open>
  Claim C10. A sheet row whose property column ("Property Name" in the name-keyed
  program, "Property ID" in the id-keyed one) is empty or missing is skipped: the work
  list is the one built from the sheet without these rows, so such a row creates no
  entry and its reservation id enters no \<^verbatim>\<open>idList\<close>.
\<close>

theorem rows_without_property_skipped:
  "getDataFromSheet (SheetData items) =
     getDataFromSheet (SheetData (filter (\<lambda>item. truthy (item ''Property Name'')) items)) \<and>
   getDataFromSheet_id (SheetData items) =
     getDataFromSheet_id (SheetData (filter (\<lambda>item. truthy (item ''Property ID'')) items))"
proof -
  have "getDataFromSheet_by col (SheetData items) =
        getDataFromSheet_by col (SheetData (filter (\<lambda>item. truthy (item col)) items))" for col
  proof (cases "filter (\<lambda>item. truthy (item col)) items = []")
    case True
    have "addRows col items (Map.empty, [], 0) =
          addRows col (filter (\<lambda>item. truthy (item col)) items) (Map.empty, [], 0)"
      by (simp only: addRows_filter_truthy)
    with True show ?thesis by (simp add: getDataFromSheet_by_def)
  next
    case False
    then have "items \<noteq> []" by auto
    with False show ?thesis by (simp add: getDataFromSheet_by_def addRows_filter_truthy)
  qed
  then show ?thesis by (simp add: getDataFromSheet_def getDataFromSheet_id_def)
qed

lemmas sheet_eval =
  getDataFromSheet_def getDataFromSheet_id_def getDataFromSheet_by_def sheetRow_def
  addRow_def hashMap_get_def newHotel_def pushId_def object_prototype_keys_def

text \<open>
  The rows of R2 (empty property) and R4 (no property) leave no trace in the work list.
\<close>

theorem rows_without_property_skipped_witness:
  "getDataFromSheet (SheetData sheet_grouped) =
     [\<lparr>name = CStr ''Hotel A'', idList = [CStr ''R1'', CStr ''R1'']\<rparr>,
      \<lparr>name = CStr ''Hotel B'', idList = [CStr ''R3'']\<rparr>] \<and>
   getDataFromSheet (SheetData sheet_grouped) =
     getDataFromSheet (SheetData [sheetRow (CStr ''Hotel A'') (CStr ''R1''),
                                  sheetRow (CStr ''Hotel B'') (CStr ''R3''),
                                  sheetRow (CStr ''Hotel A'') (CStr ''R1'')])"
proof -
  have "filter (\<lambda>item. truthy (item ''Property Name'')) sheet_grouped =
        [sheetRow (CStr ''Hotel A'') (CStr ''R1''), sheetRow (CStr ''Hotel B'') (CStr ''R3''),
         sheetRow (CStr ''Hotel A'') (CStr ''R1'')]"
    by (simp add: sheet_grouped_def sheetRow_def)
  with rows_without_property_skipped [of sheet_grouped, THEN conjunct1]
  have "getDataFromSheet (SheetData sheet_grouped) =
     getDataFromSheet (SheetData [sheetRow (CStr ''Hotel A'') (CStr ''R1''),
                                  sheetRow (CStr ''Hotel B'') (CStr ''R3''),
                                  sheetRow (CStr ''Hotel A'') (CStr ''R1'')])"
    by simp
  moreover have "getDataFromSheet (SheetData sheet_grouped) =
     [\<lparr>name = CStr ''Hotel A'', idList = [CStr ''R1'', CStr ''R1'']\<rparr>,
      \<lparr>name = CStr ''Hotel B'', idList = [CStr ''R3'']\<rparr>]"
    by (simp add: sheet_eval sheet_grouped_def)
  ultimately show ?thesis by simp
qed

subsection \<open>The work list for ordinary property names\<close>

lemma firstSeen_snoc:
  "firstSeen (xs @ [x]) = (if x \<in> set xs then firstSeen xs else firstSeen xs @ [x])"
  by (simp add: firstSeen_def)

lemma set_firstSeen [simp]: "set (firstSeen xs) = set xs"
  by (simp add: firstSeen_def)

lemma distinct_firstSeen [simp]: "distinct (firstSeen xs)"
  by (simp add: firstSeen_def)

lemma indexOf_less: "x \<in> set xs \<Longrightarrow> indexOf x xs < length xs"
  by (induction xs) auto

lemma nth_indexOf: "x \<in> set xs \<Longrightarrow> xs ! indexOf x xs = x"
  by (induction xs) auto

lemma indexOf_append_old: "x \<in> set xs \<Longrightarrow> indexOf x (xs @ ys) = indexOf x xs"
  by (induction xs) auto

lemma indexOf_append_new: "x \<notin> set xs \<Longrightarrow> indexOf x (xs @ [x]) = length xs"
  by (induction xs) auto

lemma workItem_snoc_other:
  "keyOf col item \<noteq> k \<Longrightarrow> workItem col (ps @ [item]) k = workItem col ps k"
  by (simp add: workItem_def rowsOf_def)

lemma workItem_snoc_new:
  "keyOf col item \<notin> set (map (keyOf col) ps) \<Longrightarrow>
   workItem col (ps @ [item]) (keyOf col item) =
     \<lparr>name = item col, idList = [item ''Reservation ID'']\<rparr>"
proof -
  assume "keyOf col item \<notin> set (map (keyOf col) ps)"
  then have "\<forall>x\<in>set ps. keyOf col x \<noteq> keyOf col item"
    by (metis image_eqI set_map)
  then have "rowsOf col (keyOf col item) ps = []"
    by (simp add: rowsOf_def filter_empty_conv)
  then show ?thesis by (simp add: workItem_def rowsOf_def)
qed

lemma workItem_snoc_old:
  "keyOf col item \<in> set (map (keyOf col) ps) \<Longrightarrow>
   workItem col (ps @ [item]) (keyOf col item) =
     (workItem col ps (keyOf col item))
       \<lparr>idList := idList (workItem col ps (keyOf col item)) @ [item ''Reservation ID'']\<rparr>"
proof -
  assume "keyOf col item \<in> set (map (keyOf col) ps)"
  then have "rowsOf col (keyOf col item) ps \<noteq> []"
    by (auto simp: rowsOf_def filter_empty_conv)
  then show ?thesis by (simp add: workItem_def rowsOf_def)
qed

lemma addRow_groupState:
  assumes t: "truthy (item col)" and k: "keyOf col item \<notin> set object_prototype_keys"
  shows "addRow col item (groupState col ps) = Inr (groupState col (ps @ [item]))"
proof (cases "keyOf col item \<in> set (map (keyOf col) ps)")
  case False
  let ?k = "keyOf col item" and ?fs = "firstSeen (map (keyOf col) ps)"
  from False k have get: "hashMap_get (fst (groupState col ps)) ?k = HmMissing"
    by (simp add: hashMap_get_def groupState_def)
  have fs: "firstSeen (map (keyOf col) (ps @ [item])) = ?fs @ [?k]"
    using False by (simp add: firstSeen_snoc)
  have items: "map (workItem col (ps @ [item])) ?fs = map (workItem col ps) ?fs"
    using False by (intro map_cong refl workItem_snoc_other) auto
  have hm: "(\<lambda>k'. if k' \<in> set (map (keyOf col) (ps @ [item]))
                   then Some (Suc (indexOf k' (?fs @ [?k]))) else None)
            = (\<lambda>k'. if k' \<in> set (map (keyOf col) ps)
                   then Some (Suc (indexOf k' ?fs)) else None)(?k \<mapsto> length ?fs + 1)"
    using False by (auto simp: fun_eq_iff indexOf_append_old indexOf_append_new)
  have "newHotel col item (groupState col ps) = groupState col (ps @ [item])"
    unfolding groupState_def newHotel_def fs
    using False items hm by (simp add: workItem_snoc_new keyOf_def [symmetric])
  with t get show ?thesis by (simp add: addRow_def keyOf_def)
next
  case True
  let ?k = "keyOf col item" and ?fs = "firstSeen (map (keyOf col) ps)"
  let ?i = "indexOf ?k ?fs"
  from True have get: "hashMap_get (fst (groupState col ps)) ?k = HmOwn (Suc ?i)"
    by (simp add: hashMap_get_def groupState_def)
  from True have i: "?i < length ?fs" and ki: "?fs ! ?i = ?k"
    by (simp_all add: indexOf_less nth_indexOf)
  have fs: "firstSeen (map (keyOf col) (ps @ [item])) = ?fs"
    using True by (simp add: firstSeen_snoc)
  have upd: "(map (workItem col ps) ?fs)
               [?i := (map (workItem col ps) ?fs ! ?i)
                  \<lparr>idList := idList (map (workItem col ps) ?fs ! ?i) @ [item ''Reservation ID'']\<rparr>]
             = map (workItem col (ps @ [item])) ?fs"
  proof (rule nth_equalityI)
    show "length ((map (workItem col ps) ?fs)
               [?i := (map (workItem col ps) ?fs ! ?i)
                  \<lparr>idList := idList (map (workItem col ps) ?fs ! ?i) @ [item ''Reservation ID'']\<rparr>])
          = length (map (workItem col (ps @ [item])) ?fs)"
      by simp
  next
    fix j
    assume "j < length ((map (workItem col ps) ?fs)
               [?i := (map (workItem col ps) ?fs ! ?i)
                  \<lparr>idList := idList (map (workItem col ps) ?fs ! ?i) @ [item ''Reservation ID'']\<rparr>])"
    then have j: "j < length ?fs" by simp
    show "(map (workItem col ps) ?fs)
               [?i := (map (workItem col ps) ?fs ! ?i)
                  \<lparr>idList := idList (map (workItem col ps) ?fs ! ?i) @ [item ''Reservation ID'']\<rparr>] ! j
          = map (workItem col (ps @ [item])) ?fs ! j"
    proof (cases "j = ?i")
      case True
      with i ki show ?thesis
        using workItem_snoc_old [OF \<open>?k \<in> set (map (keyOf col) ps)\<close>] by simp
    next
      case False
      have "distinct ?fs" by simp
      with False i j have "?fs ! j \<noteq> ?fs ! ?i"
        by (simp add: nth_eq_iff_index_eq)
      with ki have "?fs ! j \<noteq> ?k" by simp
      then have "workItem col (ps @ [item]) (?fs ! j) = workItem col ps (?fs ! j)"
        by (intro workItem_snoc_other) simp
      with False j show ?thesis by simp
    qed
  qed
  have hm: "(\<lambda>k'. if k' \<in> set (map (keyOf col) (ps @ [item]))
                   then Some (Suc (indexOf k' ?fs)) else None)
            = (\<lambda>k'. if k' \<in> set (map (keyOf col) ps)
                   then Some (Suc (indexOf k' ?fs)) else None)"
    using True by (auto simp: fun_eq_iff)
  have "pushId (Suc ?i) item (groupState col ps) = Inr (groupState col (ps @ [item]))"
    unfolding groupState_def pushId_def fs
    using i upd hm by simp
  with t get show ?thesis by (simp add: addRow_def keyOf_def)
qed

lemma addRows_groupState:
  assumes "\<forall>item\<in>set items. truthy (item col) \<and> keyOf col item \<notin> set object_prototype_keys"
  shows "addRows col items (groupState col ps) = Inr (groupState col (ps @ items))"
  using assms
proof (induction items arbitrary: ps)
  case Nil
  show ?case by simp
next
  case (Cons item items)
  then have "addRow col item (groupState col ps) = Inr (groupState col (ps @ [item]))"
    by (simp add: addRow_groupState)
  moreover from Cons have
    "addRows col items (groupState col (ps @ [item])) = Inr (groupState col ((ps @ [item]) @ items))"
    by simp
  ultimately show ?case by simp
qed

text \<open>
  For a sheet in which no property converts to the name of an inherited member, the
  work list built by either program is the one the specification describes.
\<close>

lemma getDataFromSheet_by_workList:
  assumes "\<forall>item\<in>set items. truthy (item col) \<longrightarrow> keyOf col item \<notin> set object_prototype_keys"
  shows "getDataFromSheet_by col (SheetData items) = workList col items"
proof -
  let ?kept = "filter (\<lambda>item. truthy (item col)) items"
  from assms have
    "\<forall>item\<in>set ?kept. truthy (item col) \<and> keyOf col item \<notin> set object_prototype_keys"
    by simp
  from addRows_groupState [OF this, of "[]"]
  have "addRows col ?kept (Map.empty, [], 0) = Inr (groupState col ?kept)"
    by (simp add: groupState_def firstSeen_def)
  then have run: "addRows col items (Map.empty, [], 0) = Inr (groupState col ?kept)"
    by (simp add: addRows_filter_truthy)
  show ?thesis
  proof (cases "items = []")
    case True
    then show ?thesis by (simp add: getDataFromSheet_by_def workList_def firstSeen_def)
  next
    case False
    with run show ?thesis
      by (simp add: getDataFromSheet_by_def workList_def groupState_def Let_def)
  qed
qed

subsection \<open>A property named like an inherited member\<close>

text \<open>
  Claim C6 asks for one entry per distinct property, in first-seen order, with all
  reservation ids of the property in row order, for every input sheet. For a sheet
  without the name of an inherited member the loop does that
  (\<open>getDataFromSheet_by_workList\<close>). For a property whose text is the name of a member
  every object inherits, such as "constructor", the lookup in \<^verbatim>\<open>hashMap\<close> finds the
  inherited member, the row is taken for a known property, \<^verbatim>\<open>hotels[NaN]\<close> is undefined
  and the TypeError is answered with an empty work list: the entry of Hotel A is lost as
  well.
\<close>

theorem inherited_name_empties_work_list:
  "getDataFromSheet (SheetData sheet_constructor) = [] \<and>
   getDataFromSheet_id (SheetData sheet_constructor) = [] \<and>
   getDataFromSheet (SheetData [sheetRow (CStr ''Hotel A'') (CStr ''R1'')]) =
     [\<lparr>name = CStr ''Hotel A'', idList = [CStr ''R1'']\<rparr>]"
  by (simp add: sheet_eval sheet_constructor_def)

subsection \<open>Export\<close>

text \<open>
  Claim C8. The export step writes no file for an empty result and, for a result of N > 0
  records, exactly one file whose sheet has N + 1 rows: the fixed header row followed by
  one row per record, in order. This holds with the columns of either program.
\<close>

theorem export_rows:
  "exportReservations isoTime [] = [] \<and> exportReservations_id isoTime [] = [] \<and>
   (allReservations \<noteq> [] \<longrightarrow>
      exportReservations isoTime allReservations =
        [(''reservations_'' @ timestamp isoTime @ ''.xlsx'',
          headerRow # map exportRow allReservations)] \<and>
      length (snd (hd (exportReservations isoTime allReservations)))
        = length allReservations + 1 \<and>
      exportReservations_id isoTime allReservations =
        [(''reservations_'' @ timestamp isoTime @ ''.xlsx'',
          headerRow_id # map exportRow_id allReservations)] \<and>
      length (snd (hd (exportReservations_id isoTime allReservations)))
        = length allReservations + 1)"
  by (simp add: exportReservations_def exportReservations_id_def exportFiles_def)

text \<open>The three records of the two-page session give one file of four rows.\<close>

theorem export_rows_witness:
  "length (exportReservations ''2025-01-01T10:00:00.000Z''
             (the (processReservationsPage setup_ok session_two_pages))) = 1 \<and>
   length (snd (hd (exportReservations ''2025-01-01T10:00:00.000Z''
             (the (processReservationsPage setup_ok session_two_pages))))) = 4 \<and>
   fst (hd (exportReservations ''2025-01-01T10:00:00.000Z''
             (the (processReservationsPage setup_ok session_two_pages))))
     = ''reservations_2025-01-01T10-00-00-000Z.xlsx''"
proof -
  let ?recs = "the (processReservationsPage setup_ok session_two_pages)"
  have ne: "?recs \<noteq> []" and len: "length ?recs = 3"
    by (simp_all add: session_two_pages_run)
  from export_rows [of "''2025-01-01T10:00:00.000Z''" ?recs] ne len
  show ?thesis by (simp add: timestamp_def)
qed

subsection \<open>Where the records of a result come from\<close>










lemma session_cancelled_id_run:
  "processReservationsPage_id (CNum True ''7'') (CNum True ''7'') setup_ok session_cancelled_id
     = Some [record_cancelled_id]"
  by (simp add: session_cancelled_id_def record_cancelled_id_def pass_eval row_id_eval
        cardLoop_nothing_id)

subsection \<open>Amount to charge or refund\<close>




subsection \<open>Card data or payment data\<close>




subsection \<open>Cancelled reservations\<close>

text \<open>
  Claim C5 says that every record emitted for a reservation whose dialog indicates
  cancellation has \<^verbatim>\<open>hasCardInfo\<close> false, status "Cancelled" and reason "Cancellation
  Fee". The id-keyed program has no cancellation branch: it does not look at the dialog
  title, and the record of a cancelled reservation gets the status of the card badge
  (here the default "None") and no reason.
\<close>

theorem canceled_record_counterexample:
  "titleCancelled (dialog (row_ok ''R2'' dialog_cancelled_id)) \<and>
   processReservationsPage_id (CNum True ''7'') (CNum True ''7'') setup_ok session_cancelled_id
     = Some [record_cancelled_id] \<and>
   status record_cancelled_id = Some ''None'' \<and>
   reasonOfCharge record_cancelled_id = None"
  by (simp add: session_cancelled_id_run)
     (simp add: record_cancelled_id_def activeReservation_id_def vars_nothing_id_def
        row_ok_def dialog_cancelled_id_def)

text \<open>
  Claim C5, amended. In the name-keyed program, a row whose dialog title indicates
  cancellation appends nothing or exactly one record, and that record has
  \<^verbatim>\<open>hasCardInfo\<close> false, status "Cancelled" and reason "Cancellation Fee". (The id-keyed
  program emits its ordinary record for such a row.)
\<close>

theorem canceled_dialog_record:
  "processRow row st = Some (st', e) \<longrightarrow> isCanceledEval (dialog row) = Ok True \<longrightarrow>
     (snd st' = snd st \<or>
      (\<exists>r. snd st' = snd st @ [r] \<and> \<not> hasCardInfo r \<and> status r = Some ''Cancelled'' \<and>
           reasonOfCharge r = Some ''Cancellation Fee''))"
proof (intro impI)
  assume r: "processRow row st = Some (st', e)" and c: "isCanceledEval (dialog row) = Ok True"
  from processRow_shape [OF r] c
  have "snd st' = snd st \<or> (\<exists>b info. snd st' = snd st @ [canceledReservation b info])"
    by auto
  then show "snd st' = snd st \<or>
      (\<exists>r. snd st' = snd st @ [r] \<and> \<not> hasCardInfo r \<and> status r = Some ''Cancelled'' \<and>
           reasonOfCharge r = Some ''Cancellation Fee'')"
    by (auto simp: canceledReservation_def split: prod.splits)
qed

lemma row_cancelled_run:
  "processRow (row_ok ''R2'' dialog_cancelled) ({}, []) =
     Some (({''R2''}, [canceledReservation (basic ''R2'') (''50.00'', ''0.00'', ''40.00'')]),
           RowDone)"
  by (simp add: row_ok_def row_eval)

text \<open>The row of the cancelled reservation R2 appends one such record.\<close>

theorem canceled_dialog_record_witness:
  "isCanceledEval (dialog (row_ok ''R2'' dialog_cancelled)) = Ok True \<and>
   snd (fst (the (processRow (row_ok ''R2'' dialog_cancelled) ({}, []))))
     = [canceledReservation (basic ''R2'') (''50.00'', ''0.00'', ''40.00'')] \<and>
   \<not> hasCardInfo (canceledReservation (basic ''R2'') (''50.00'', ''0.00'', ''40.00'')) \<and>
   status (canceledReservation (basic ''R2'') (''50.00'', ''0.00'', ''40.00''))
     = Some ''Cancelled'' \<and>
   reasonOfCharge (canceledReservation (basic ''R2'') (''50.00'', ''0.00'', ''40.00''))
     = Some ''Cancellation Fee''"
proof -
  have c: "isCanceledEval (dialog (row_ok ''R2'' dialog_cancelled)) = Ok True"
    by (simp add: row_ok_def dialog_cancelled_def)
  from canceled_dialog_record [rule_format, OF row_cancelled_run c]
  have "\<not> hasCardInfo (canceledReservation (basic ''R2'') (''50.00'', ''0.00'', ''40.00'')) \<and>
        status (canceledReservation (basic ''R2'') (''50.00'', ''0.00'', ''40.00''))
          = Some ''Cancelled'' \<and>
        reasonOfCharge (canceledReservation (basic ''R2'') (''50.00'', ''0.00'', ''40.00''))
          = Some ''Cancellation Fee''"
    by auto
  with c show ?thesis by (simp add: row_cancelled_run)
qed

subsection \<open>A row that raises\<close>

lemma processRow_threw_appends_nothing:
  "processRow row st = Some (st', RowThrew err) \<Longrightarrow> snd st' = snd st"
  by (auto simp: processRow_def rowCatch_def Let_def
           split: res.splits if_splits bool.splits option.splits)

lemma processRow_id_threw_appends_nothing:
  "processRow_id pid pname row st = (st', RowThrew err) \<Longrightarrow> snd st' = snd st"
  by (auto simp: processRow_id_def rowCatch_def Let_def split: res.splits if_splits)

text \<open>
  Claim C4 says that a row whose extraction raises after its basic fields were read
  still yields a degraded record (basic fields kept, card and payment fields "N/A").
  The row's handler does contain that push, guarded by \<^verbatim>\<open>if (basicData)\<close>; but
  \<^verbatim>\<open>basicData\<close> is declared inside the \<^verbatim>\<open>try\<close> block, so the guard itself raises, the
  page handler reloads, and in the next pass the row is skipped as a duplicate. With a
  page whose first row R1 raises on the click and whose second row R2 is fine, the
  result holds the record of R2 only, in both programs.
\<close>

theorem raising_row_leaves_no_record:
  "processReservationsPage setup_ok session_click_throws =
     Some [activeReservation (basic ''R2'') vars_card] \<and>
   processReservationsPage_id (CNum True ''7'') (CNum True ''7'') setup_ok session_click_throws_id =
     Some [activeReservation_id (CNum True ''7'') (CNum True ''7'') (basic ''R2'') vars_both_id ''N/A'' ''Hotel A'']"
  by (simp add: session_click_throws_def session_click_throws_id_def pass_eval row_eval
        row_id_eval cardLoop_card cardLoop_both_id)

subsection \<open>A dialog that does not open\<close>

lemma rowsLoop_append:
  "rowsLoop f (xs @ ys) st =
     (case rowsLoop f xs st of
        None \<Rightarrow> None
      | Some (st', RowThrew err) \<Rightarrow> Some (st', RowThrew err)
      | Some (st', RowDone) \<Rightarrow> rowsLoop f ys st')"
  by (induction xs arbitrary: st) (auto split: option.splits row_end.splits)

lemma pageLoop_after_body:
  assumes run: "pageLoop f env k st = Some (Inr out)"
    and body: "pageBody f (env k) st = Some (st', e)"
    and P: "P st'"
    and step: "\<forall>row st st' e. P st \<longrightarrow> f row st = Some (st', e) \<longrightarrow> P st'"
  shows "\<exists>ids. P (ids, out)"
proof (cases e)
  case PageLast
  with run body have "out = snd st'" by (subst (asm) pageLoop.simps) simp
  with P show ?thesis by (metis prod.collapse)
next
  case PageNext
  with run body have "pageLoop f env (k + 1) st' = Some (Inr out)"
    by (subst (asm) pageLoop.simps) simp
  then show ?thesis using P step by (rule pageLoop_preserves)
next
  case PageFailed
  with run body have "pageLoop f env (k + 1) st' = Some (Inr out)"
    by (subst (asm) pageLoop.simps) (simp split: if_splits)
  then show ?thesis using P step by (rule pageLoop_preserves)
qed

lemma row_without_dialog_closes_id:
  assumes kept: "idsKept st0"
    and stepK: "\<forall>row st st' e. idsKept st \<longrightarrow> f row st = Some (st', e) \<longrightarrow> idsKept st'"
    and stepC: "\<forall>row st st' e. idClosed x st \<longrightarrow> f row st = Some (st', e) \<longrightarrow> idClosed x st'"
    and page: "tableOk (env k)" "tableRows (env k) = pre @ row # rest"
    and before: "rowsLoop f pre st0 = Some (st, RowDone)"
    and new: "x \<notin> fst st"
    and rowstep: "f row st = Some ((insert x (fst st), snd st), RowDone)"
    and run: "pageLoop f env k st0 = Some (Inr out)"
  shows "x \<notin> r_reservationId ` set out"
proof -
  let ?st1 = "(insert x (fst st), snd st)"
  have "\<And>row st st' e. idsKept st \<Longrightarrow> f row st = Some (st', e) \<Longrightarrow> idsKept st'"
    using stepK by blast
  from rowsLoop_preserves [of idsKept f, OF this kept before] have "idsKept st" .
  with new have closed1: "idClosed x ?st1"
    by (auto simp: idsKept_def idClosed_def)
  have rows: "rowsLoop f (tableRows (env k)) st0 = rowsLoop f rest ?st1"
    by (simp add: page(2) rowsLoop_append before rowstep)
  from run obtain st' e where body: "pageBody f (env k) st0 = Some (st', e)"
    by (subst (asm) pageLoop.simps) (auto split: option.splits)
  with page(1) rows obtain e1 where "rowsLoop f rest ?st1 = Some (st', e1)"
    by (auto simp: pageBody_def split: option.splits row_end.splits)
  moreover have "\<And>row st st' e. idClosed x st \<Longrightarrow> f row st = Some (st', e) \<Longrightarrow> idClosed x st'"
    using stepC by blast
  ultimately have "idClosed x st'"
    using closed1 by (rule rowsLoop_preserves [rotated 2])
  with run body have "\<exists>ids. idClosed x (ids, out)"
    using stepC by (rule pageLoop_after_body)
  then show ?thesis by (simp add: idClosed_def)
qed

lemma processRow_idClosed:
  "\<forall>row st st' e. idClosed x st \<longrightarrow> processRow row st = Some (st', e) \<longrightarrow> idClosed x st'"
proof (intro allI impI)
  fix row st st' e
  assume c: "idClosed x st" and r: "processRow row st = Some (st', e)"
  from processRow_shape [OF r] c show "idClosed x st'"
    by (auto simp: idClosed_def)
qed

lemma processRow_id_idClosed:
  "\<forall>row st st' e. idClosed x st \<longrightarrow> Some (processRow_id pid pname row st) = Some (st', e) \<longrightarrow>
     idClosed x st'"
proof (intro allI impI)
  fix row st st' e
  assume c: "idClosed x st" and "Some (processRow_id pid pname row st) = Some (st', e)"
  then have "processRow_id pid pname row st = (st', e)" by simp
  from processRow_id_shape [OF this] c show "idClosed x st'"
    by (auto simp: idClosed_def)
qed

text \<open>
  Claim C9. Take any pass \<open>k\<close> of the page loop, started in a state \<open>st0\<close> that satisfies
  the invariant, and a row of that pass which is reached (the rows before it end
  normally, leaving the state \<open>st\<close>) with a reservation id not yet in the set, and whose
  dialog does not appear. Then the row puts its id into the set and appends nothing; the
  result of the session has no record with that id; and from then on a row with that id
  is left as a duplicate, without any attempt to open its dialog. This holds in both
  programs.
\<close>

theorem dialog_timeout_closes_reservation:
  "(idsKept st0 \<and> tableOk (env k) \<and> tableRows (env k) = pre @ row # rest \<and>
    rowsLoop processRow pre st0 = Some (st, RowDone) \<and>
    basicEval row = Ok b \<and> reservationId b \<notin> fst st \<and> clickOk row \<and> \<not> dialogAppears row \<and>
    pageLoop processRow env k st0 = Some (Inr out)
    \<longrightarrow> processRow row st = Some ((insert (reservationId b) (fst st), snd st), RowDone) \<and>
        reservationId b \<notin> r_reservationId ` set out) \<and>
   (idsKept st0 \<and> tableOk (env' k) \<and> tableRows (env' k) = pre' @ row' # rest' \<and>
    rowsLoop (\<lambda>row st. Some (processRow_id pid pname row st)) pre' st0 = Some (st, RowDone) \<and>
    basicEval row' = Ok b \<and> reservationId b \<notin> fst st \<and> clickOk row' \<and> \<not> dialogAppears row' \<and>
    pageLoop (\<lambda>row st. Some (processRow_id pid pname row st)) env' k st0 = Some (Inr out')
    \<longrightarrow> processRow_id pid pname row' st = ((insert (reservationId b) (fst st), snd st), RowDone) \<and>
        reservationId b \<notin> r_reservationId ` set out') \<and>
   (basicEval later = Ok b \<and> reservationId b \<in> fst st2
    \<longrightarrow> processRow later st2 = Some (st2, RowDone)) \<and>
   (basicEval later' = Ok b \<and> reservationId b \<in> fst st2
    \<longrightarrow> processRow_id pid pname later' st2 = (st2, RowDone))"
proof (intro conjI impI)
  assume a: "idsKept st0 \<and> tableOk (env k) \<and> tableRows (env k) = pre @ row # rest \<and>
    rowsLoop processRow pre st0 = Some (st, RowDone) \<and>
    basicEval row = Ok b \<and> reservationId b \<notin> fst st \<and> clickOk row \<and> \<not> dialogAppears row \<and>
    pageLoop processRow env k st0 = Some (Inr out)"
  then show rowstep: "processRow row st = Some ((insert (reservationId b) (fst st), snd st), RowDone)"
    by (simp add: processRow_def)
  from a show "reservationId b \<notin> r_reservationId ` set out"
    using row_without_dialog_closes_id [of st0 processRow "reservationId b" env k pre row rest st out]
      processRow_idsKept processRow_idClosed [of "reservationId b"] rowstep
    by blast
next
  assume a: "idsKept st0 \<and> tableOk (env' k) \<and> tableRows (env' k) = pre' @ row' # rest' \<and>
    rowsLoop (\<lambda>row st. Some (processRow_id pid pname row st)) pre' st0 = Some (st, RowDone) \<and>
    basicEval row' = Ok b \<and> reservationId b \<notin> fst st \<and> clickOk row' \<and> \<not> dialogAppears row' \<and>
    pageLoop (\<lambda>row st. Some (processRow_id pid pname row st)) env' k st0 = Some (Inr out')"
  then show rowstep:
    "processRow_id pid pname row' st = ((insert (reservationId b) (fst st), snd st), RowDone)"
    by (simp add: processRow_id_def)
  from a show "reservationId b \<notin> r_reservationId ` set out'"
    using row_without_dialog_closes_id
            [of st0 "\<lambda>row st. Some (processRow_id pid pname row st)" "reservationId b"
                env' k pre' row' rest' st out']
      processRow_id_idsKept [of pid pname] processRow_id_idClosed [of "reservationId b" pid pname]
      rowstep
    by blast
next
  assume "basicEval later = Ok b \<and> reservationId b \<in> fst st2"
  then show "processRow later st2 = Some (st2, RowDone)" by (simp add: processRow_def)
next
  assume "basicEval later' = Ok b \<and> reservationId b \<in> fst st2"
  then show "processRow_id pid pname later' st2 = (st2, RowDone)" by (simp add: processRow_id_def)
qed

lemma session_no_dialog_run:
  "pageLoop processRow session_no_dialog 0 ({}, []) =
     Some (Inr [activeReservation (basic ''R2'') vars_card,
                activeReservation (basic ''R3'') vars_card])"
  by (simp add: session_no_dialog_def pass_eval row_eval cardLoop_card)

lemma session_no_dialog_id_run:
  "pageLoop (\<lambda>row st. Some (processRow_id (CNum True ''7'') (CNum True ''7'') row st)) session_no_dialog_id 0 ({}, []) =
     Some (Inr [activeReservation_id (CNum True ''7'') (CNum True ''7'') (basic ''R2'') vars_both_id ''N/A'' ''Hotel A'',
                activeReservation_id (CNum True ''7'') (CNum True ''7'') (basic ''R3'') vars_both_id ''N/A'' ''Hotel A''])"
  by (simp add: session_no_dialog_id_def pass_eval row_id_eval cardLoop_both_id)

text \<open>
  The dialog of R1 does not open on the first page. The second page shows R1 again, with
  a dialog that would open: the result has the records of R2 and R3 only, in both
  programs, and the later row of R1 leaves the state as it is.
\<close>

theorem dialog_timeout_closes_reservation_witness:
  "processRow (row_no_dialog ''R1'' dialog_card) ({}, []) = Some (({''R1''}, []), RowDone) \<and>
   ''R1'' \<notin> r_reservationId `
      set [activeReservation (basic ''R2'') vars_card, activeReservation (basic ''R3'') vars_card] \<and>
   processRow_id (CNum True ''7'') (CNum True ''7'') (row_no_dialog ''R1'' dialog_both_id) ({}, [])
     = (({''R1''}, []), RowDone) \<and>
   ''R1'' \<notin> r_reservationId `
      set [activeReservation_id (CNum True ''7'') (CNum True ''7'') (basic ''R2'') vars_both_id ''N/A'' ''Hotel A'',
           activeReservation_id (CNum True ''7'') (CNum True ''7'') (basic ''R3'') vars_both_id ''N/A'' ''Hotel A''] \<and>
   processRow (row_ok ''R1'' dialog_card) ({''R1''}, []) = Some (({''R1''}, []), RowDone)"
proof -
  have hyps: "idsKept ({}, []) \<and> tableOk (session_no_dialog 0) \<and>
    tableRows (session_no_dialog 0)
      = [] @ row_no_dialog ''R1'' dialog_card # [row_ok ''R2'' dialog_card] \<and>
    rowsLoop processRow [] ({}, []) = Some (({}, []), RowDone) \<and>
    basicEval (row_no_dialog ''R1'' dialog_card) = Ok (basic ''R1'') \<and>
    reservationId (basic ''R1'') \<notin> fst ({}, []) \<and>
    clickOk (row_no_dialog ''R1'' dialog_card) \<and>
    \<not> dialogAppears (row_no_dialog ''R1'' dialog_card)"
    by (simp add: idsKept_def session_no_dialog_def two_passes_def more_page_def
          row_no_dialog_def)
  have hyps_id: "idsKept ({}, []) \<and> tableOk (session_no_dialog_id 0) \<and>
    tableRows (session_no_dialog_id 0)
      = [] @ row_no_dialog ''R1'' dialog_both_id # [row_ok ''R2'' dialog_both_id] \<and>
    rowsLoop (\<lambda>row st. Some (processRow_id (CNum True ''7'') (CNum True ''7'') row st)) [] ({}, [])
      = Some (({}, []), RowDone) \<and>
    basicEval (row_no_dialog ''R1'' dialog_both_id) = Ok (basic ''R1'') \<and>
    reservationId (basic ''R1'') \<notin> fst ({}, []) \<and>
    clickOk (row_no_dialog ''R1'' dialog_both_id) \<and>
    \<not> dialogAppears (row_no_dialog ''R1'' dialog_both_id)"
    by (simp add: idsKept_def session_no_dialog_id_def two_passes_def more_page_def
          row_no_dialog_def)
  have hyps_later: "basicEval (row_ok ''R1'' dialog_card) = Ok (basic ''R1'') \<and>
    reservationId (basic ''R1'') \<in> fst ({''R1''}, [])"
    by (simp add: row_ok_def basic_def)
  note inst = dialog_timeout_closes_reservation
         [of "({}, [])" session_no_dialog 0 "[]" "row_no_dialog ''R1'' dialog_card"
            "[row_ok ''R2'' dialog_card]" "({}, [])" "basic ''R1''"
            "[activeReservation (basic ''R2'') vars_card, activeReservation (basic ''R3'') vars_card]"
            session_no_dialog_id "[]" "row_no_dialog ''R1'' dialog_both_id"
            "[row_ok ''R2'' dialog_both_id]" "CNum True ''7''" "CNum True ''7''"
            "[activeReservation_id (CNum True ''7'') (CNum True ''7'') (basic ''R2'') vars_both_id ''N/A'' ''Hotel A'',
              activeReservation_id (CNum True ''7'') (CNum True ''7'') (basic ''R3'') vars_both_id ''N/A'' ''Hotel A'']"
            "row_ok ''R1'' dialog_card" "({''R1''}, [])"]
  from inst [THEN conjunct1] hyps session_no_dialog_run
  have a: "processRow (row_no_dialog ''R1'' dialog_card) ({}, []) = Some (({''R1''}, []), RowDone) \<and>
   ''R1'' \<notin> r_reservationId `
      set [activeReservation (basic ''R2'') vars_card, activeReservation (basic ''R3'') vars_card]"
    by (simp add: basic_def)
  from inst [THEN conjunct2, THEN conjunct1] hyps_id session_no_dialog_id_run
  have b: "processRow_id (CNum True ''7'') (CNum True ''7'') (row_no_dialog ''R1'' dialog_both_id) ({}, [])
     = (({''R1''}, []), RowDone) \<and>
   ''R1'' \<notin> r_reservationId `
      set [activeReservation_id (CNum True ''7'') (CNum True ''7'') (basic ''R2'') vars_both_id ''N/A'' ''Hotel A'',
           activeReservation_id (CNum True ''7'') (CNum True ''7'') (basic ''R3'') vars_both_id ''N/A'' ''Hotel A'']"
    by (simp add: basic_def)
  from inst [THEN conjunct2, THEN conjunct2, THEN conjunct1] hyps_later
  have c: "processRow (row_ok ''R1'' dialog_card) ({''R1''}, []) = Some (({''R1''}, []), RowDone)"
    by simp
  from a b c show ?thesis by blast
qed

subsection \<open>When the page loop returns\<close>

lemma stuck_never_returns_aux:
  assumes run: "pageLoop f env k st = Some out"
  shows "env \<noteq> session_stuck"
proof (induct rule: pageLoop.raw_induct [OF _ run])
  case (1 loop f env k st out)
  show ?case
  proof
    assume env: "env = session_stuck"
    then have "pageBody f (env k) st = Some (st, PageFailed)" and "reloadOk (env k)"
      by (simp_all add: session_stuck_def stuck_page_def pageBody_def)
    with "1"(2) have "loop f env (k + 1) st = Some out" by simp
    from "1"(1) [OF this] env show False by simp
  qed
qed

lemma stuck_never_returns: "pageLoop f session_stuck k st = None"
proof (cases "pageLoop f session_stuck k st")
  case None
  then show ?thesis .
next
  case (Some out)
  from stuck_never_returns_aux [OF this] show ?thesis by simp
qed

text \<open>
  Claim C7 says that the page loop, which answers a page-level failure by reloading and
  trying again, terminates for every input. The loop counts neither passes nor
  failures: when the table never appears (each wait for it times out) and each reload
  succeeds, every pass ends in the handler and the next pass begins. The call does not
  return, in either program.
\<close>

theorem page_loop_counterexample:
  "processReservationsPage setup_ok session_stuck = None \<and>
   processReservationsPage_id (CNum True ''7'') (CNum True ''7'') setup_ok session_stuck = None"
  by (simp add: processReservationsPage_def processReservationsPage_id_def
        processReservationsPage_by_def setup_ok_def searchInputSelectors_def
        stuck_never_returns)

lemma pageLoop_returns_if:
  "passState f env k st n = Some s \<Longrightarrow> pageBody f (env (k + n)) s = Some (s', e) \<Longrightarrow>
   endsLoop (env (k + n)) e \<Longrightarrow> pageLoop f env k st \<noteq> None"
proof (induction n arbitrary: k st)
  case 0
  then show ?case
    by (subst pageLoop.simps) (auto simp: endsLoop_def)
next
  case (Suc n)
  from Suc.prems(1) obtain st1 e1 where body: "pageBody f (env k) st = Some (st1, e1)"
    and go: "continues (env k) e1" and later: "passState f env (k + 1) st1 n = Some s"
    by (auto split: option.splits if_splits)
  from Suc.prems(2,3) have "pageBody f (env (k + 1 + n)) s = Some (s', e)"
    and "endsLoop (env (k + 1 + n)) e" by simp_all
  with later have "pageLoop f env (k + 1) st1 \<noteq> None" by (rule Suc.IH)
  with body go show ?case
    by (subst pageLoop.simps) (auto simp: continues_def)
qed

lemma pageLoop_returns_only_if:
  assumes run: "pageLoop f env k st = Some out"
  shows "\<exists>n s s' e. passState f env k st n = Some s \<and> pageBody f (env (k + n)) s = Some (s', e) \<and>
           endsLoop (env (k + n)) e"
proof (induct rule: pageLoop.raw_induct [OF _ run])
  case (1 loop f env k st out)
  from "1"(2) obtain st' e where body: "pageBody f (env k) st = Some (st', e)"
    by (auto split: option.splits)
  show ?case
  proof (cases "continues (env k) e")
    case True
    with "1"(2) body have "loop f env (k + 1) st' = Some out"
      by (auto simp: continues_def)
    from "1"(1) [OF this] obtain n s s' e'
      where "passState f env (k + 1) st' n = Some s"
        and "pageBody f (env (k + 1 + n)) s = Some (s', e')"
        and "endsLoop (env (k + 1 + n)) e'" by blast
    with body True have "passState f env k st (Suc n) = Some s \<and>
        pageBody f (env (k + Suc n)) s = Some (s', e') \<and> endsLoop (env (k + Suc n)) e'"
      by simp
    then show ?thesis by blast
  next
    case False
    then have "endsLoop (env k) e"
      by (cases e) (auto simp: continues_def endsLoop_def)
    with body have "passState f env k st 0 = Some st \<and>
        pageBody f (env (k + 0)) st = Some (st', e) \<and> endsLoop (env (k + 0)) e"
      by simp
    then show ?thesis by blast
  qed
qed

lemma pageLoop_returns_iff:
  "pageLoop f env k st \<noteq> None \<longleftrightarrow>
     (\<exists>n s s' e. passState f env k st n = Some s \<and> pageBody f (env (k + n)) s = Some (s', e) \<and>
        endsLoop (env (k + n)) e)"
proof
  assume "pageLoop f env k st \<noteq> None"
  then obtain out where "pageLoop f env k st = Some out" by auto
  then show "\<exists>n s s' e. passState f env k st n = Some s \<and>
      pageBody f (env (k + n)) s = Some (s', e) \<and> endsLoop (env (k + n)) e"
    by (rule pageLoop_returns_only_if)
next
  assume "\<exists>n s s' e. passState f env k st n = Some s \<and>
      pageBody f (env (k + n)) s = Some (s', e) \<and> endsLoop (env (k + n)) e"
  then show "pageLoop f env k st \<noteq> None"
    using pageLoop_returns_if by blast
qed

lemma processReservationsPage_by_setup:
  "processReservationsPage_by f su env \<noteq> None \<longleftrightarrow>
     \<not> setupReady su \<or> pageLoop f env 0 ({}, []) \<noteq> None"
  by (auto simp: processReservationsPage_by_def setupReady_def
           split: res.splits option.splits sum.splits)

lemma cardStep_yields:
  "yieldsData ob \<Longrightarrow> cardStep ob (None, None, remaining, refund, retries) = (c, p, rest) \<Longrightarrow>
   c \<noteq> None \<or> p \<noteq> None"
  by (auto simp: yieldsData_def cardStep_def readAdditional_def cardData_of_def paymentData_of_def
           split: res.splits if_splits)

lemma cardStep_no_data:
  "\<not> yieldsData ob \<Longrightarrow>
   \<exists>remaining' refund'.
     cardStep ob (None, None, remaining, refund, retries) =
       (None, None, remaining', refund', if raises ob then retries + 1 else retries)"
  by (auto simp: yieldsData_def raises_def cardStep_def readAdditional_def cardData_of_def
                 paymentData_of_def
           split: res.splits if_splits)

lemma cardLoop_data_returns:
  "c \<noteq> None \<or> p \<noteq> None \<Longrightarrow> cardLoop obs i (c, p, rest) \<noteq> None"
  by (subst cardLoop.simps) (auto split: prod.splits)

lemma cardLoop_ends_aux:
  "(\<exists>j. i \<le> j \<and> j < i + m \<and> yieldsData (obs j)) \<or>
     3 \<le> retries + length (filter (\<lambda>j. raises (obs j)) [i..<i + m]) \<Longrightarrow>
   cardLoop obs i (None, None, remaining, refund, retries) \<noteq> None"
proof (induction m arbitrary: i remaining refund retries)
  case 0
  then have "3 \<le> retries" by auto
  then show ?case by (subst cardLoop.simps) simp
next
  case (Suc m)
  show ?case
  proof (cases "3 \<le> retries")
    case True
    then show ?thesis by (subst cardLoop.simps) simp
  next
    case False
    show ?thesis
    proof (cases "yieldsData (obs i)")
      case True
      obtain c p rest where s: "cardStep (obs i) (None, None, remaining, refund, retries) = (c, p, rest)"
        by (cases "cardStep (obs i) (None, None, remaining, refund, retries)") auto
      from cardStep_yields [OF True s] have "cardLoop obs (i + 1) (c, p, rest) \<noteq> None"
        by (rule cardLoop_data_returns)
      with False s show ?thesis by (subst cardLoop.simps) simp
    next
      case nodata: False
      let ?r = "if raises (obs i) then retries + 1 else retries"
      from cardStep_no_data [OF nodata, of remaining refund retries]
      obtain remaining' refund' where
        s: "cardStep (obs i) (None, None, remaining, refund, retries) =
              (None, None, remaining', refund', ?r)" by blast
      have split: "[i..<i + Suc m] = i # [Suc i..<Suc i + m]"
        by (simp add: upt_rec)
      from Suc.prems have
        "(\<exists>j. Suc i \<le> j \<and> j < Suc i + m \<and> yieldsData (obs j)) \<or>
           3 \<le> ?r + length (filter (\<lambda>j. raises (obs j)) [Suc i..<Suc i + m])"
      proof
        assume "\<exists>j. i \<le> j \<and> j < i + Suc m \<and> yieldsData (obs j)"
        then obtain j where j: "i \<le> j" "j < i + Suc m" "yieldsData (obs j)" by blast
        with nodata have "j \<noteq> i" by auto
        with j have "Suc i \<le> j \<and> j < Suc i + m \<and> yieldsData (obs j)" by simp
        then show ?thesis by blast
      next
        assume "3 \<le> retries + length (filter (\<lambda>j. raises (obs j)) [i..<i + Suc m])"
        then show ?thesis unfolding split by auto
      qed
      then have "cardLoop obs (Suc i) (None, None, remaining', refund', ?r) \<noteq> None"
        by (rule Suc.IH)
      with False s show ?thesis by (subst cardLoop.simps) simp
    qed
  qed
qed

lemma cardLoop_ends:
  assumes "retryEndsWithin obs m"
  shows "cardLoop obs 0 (None, None, None, None, 0) \<noteq> None"
proof (rule cardLoop_ends_aux [of 0 m obs 0])
  from assms show "(\<exists>j. 0 \<le> j \<and> j < 0 + m \<and> yieldsData (obs j)) \<or>
      3 \<le> 0 + length (filter (\<lambda>j. raises (obs j)) [0..<0 + m])"
    by (auto simp: retryEndsWithin_def)
qed

lemma processRow_ends:
  assumes "\<exists>m. retryEndsWithin (iters (dialog row)) m"
  shows "processRow row st \<noteq> None"
proof -
  from assms obtain m where "retryEndsWithin (iters (dialog row)) m" ..
  then have "cardLoop (iters (dialog row)) 0 (None, None, None, None, 0) \<noteq> None"
    by (rule cardLoop_ends)
  then obtain v where "cardLoop (iters (dialog row)) 0 (None, None, None, None, 0) = Some v"
    by blast
  then show ?thesis
    by (simp add: processRow_def Let_def rowCatch_def split: res.splits bool.splits)
qed

lemma rowsLoop_ends:
  "\<forall>row\<in>set rs. \<forall>st. f row st \<noteq> None \<Longrightarrow> rowsLoop f rs st \<noteq> None"
proof (induction rs arbitrary: st)
  case Nil
  show ?case by simp
next
  case (Cons row rest)
  then obtain st' e where "f row st = Some (st', e)"
    by (metis list.set_intros(1) not_Some_eq surj_pair)
  with Cons.IH [of st'] Cons.prems show ?case by (cases e) auto
qed

lemma pageBody_ends:
  "\<forall>row\<in>set (tableRows pg). \<forall>st. f row st \<noteq> None \<Longrightarrow> pageBody f pg st \<noteq> None"
  using rowsLoop_ends [of "tableRows pg" f st]
  by (auto simp: pageBody_def split: option.splits row_end.splits)

lemma cardLoop_id_three_passes_aux:
  "(\<forall>j. i \<le> j \<and> j < i + (3 - retries) \<longrightarrow> obs j = obs' j) \<Longrightarrow>
   cardLoop_id obs i v retries = cardLoop_id obs' i v retries"
proof (induction obs i v retries rule: cardLoop_id.induct)
  case (1 obs i v retries)
  show ?case
  proof (cases "retries < 3")
    case False
    then show ?thesis by (simp add: cardLoop_id.simps [of _ i v retries])
  next
    case True
    with "1.prems" have same: "obs i = obs' i" by simp
    show ?thesis
    proof (cases "snd (cardStep_id (obs i) v)")
      case stop: True
      with True same show ?thesis by (simp add: cardLoop_id.simps [of _ i v retries])
    next
      case go: False
      from "1.prems" have "\<forall>j. i + 1 \<le> j \<and> j < i + 1 + (3 - (retries + 1)) \<longrightarrow> obs j = obs' j"
        by auto
      with True go have "cardLoop_id obs (i + 1) (fst (cardStep_id (obs i) v)) (retries + 1) =
          cardLoop_id obs' (i + 1) (fst (cardStep_id (obs i) v)) (retries + 1)"
        by (rule "1.IH")
      with True go same show ?thesis by (simp add: cardLoop_id.simps [of _ i v retries])
    qed
  qed
qed

lemma cardLoop_id_three_passes:
  "(\<forall>j<3. obs j = obs' j) \<Longrightarrow> cardLoop_id obs 0 v 0 = cardLoop_id obs' 0 v 0"
  by (rule cardLoop_id_three_passes_aux) simp

text \<open>
  Claim C7, amended. The page loop counts neither its passes nor its failures. A call
  returns exactly when the checks before the loop fail or some pass ends the loop (no
  enabled next control after the rows, or a failing reload in the handler), that pass
  being reached from the empty state through passes that each came to their end and
  after which the loop went on. A pass of the name-keyed program comes to its end when
  the retry loop of each of its rows reads data in some pass or raises in three; a pass
  of the id-keyed program always comes to its end, and its retry loop makes at most
  three passes: what it returns depends on the first three only.
\<close>

theorem page_loop_returns_iff_a_pass_ends_it:
  "(processReservationsPage su env \<noteq> None \<longleftrightarrow>
      \<not> setupReady su \<or>
      (\<exists>n s s' e. passState processRow env 0 ({}, []) n = Some s \<and>
         pageBody processRow (env n) s = Some (s', e) \<and> endsLoop (env n) e)) \<and>
   (processReservationsPage_id pid pname su env' \<noteq> None \<longleftrightarrow>
      \<not> setupReady su \<or>
      (\<exists>n s s' e.
         passState (\<lambda>row st. Some (processRow_id pid pname row st)) env' 0 ({}, []) n = Some s \<and>
         pageBody (\<lambda>row st. Some (processRow_id pid pname row st)) (env' n) s = Some (s', e) \<and>
         endsLoop (env' n) e)) \<and>
   ((\<forall>row\<in>set (tableRows pg). \<exists>m. retryEndsWithin (iters (dialog row)) m) \<longrightarrow>
      pageBody processRow pg st \<noteq> None) \<and>
   pageBody (\<lambda>row st. Some (processRow_id pid pname row st)) pg' st' \<noteq> None \<and>
   ((\<forall>i<3. obs i = obs' i) \<longrightarrow> cardLoop_id obs 0 v 0 = cardLoop_id obs' 0 v 0)"
proof -
  have name_keyed: "processReservationsPage su env \<noteq> None \<longleftrightarrow>
      \<not> setupReady su \<or>
      (\<exists>n s s' e. passState processRow env 0 ({}, []) n = Some s \<and>
         pageBody processRow (env n) s = Some (s', e) \<and> endsLoop (env n) e)"
    unfolding processReservationsPage_def processReservationsPage_by_setup
    using pageLoop_returns_iff [of processRow env 0 "({}, [])"] by simp
  have id_keyed: "processReservationsPage_id pid pname su env' \<noteq> None \<longleftrightarrow>
      \<not> setupReady su \<or>
      (\<exists>n s s' e.
         passState (\<lambda>row st. Some (processRow_id pid pname row st)) env' 0 ({}, []) n = Some s \<and>
         pageBody (\<lambda>row st. Some (processRow_id pid pname row st)) (env' n) s = Some (s', e) \<and>
         endsLoop (env' n) e)"
    unfolding processReservationsPage_id_def processReservationsPage_by_setup
    using pageLoop_returns_iff [of "\<lambda>row st. Some (processRow_id pid pname row st)" env' 0 "({}, [])"]
    by simp
  have pass: "pageBody processRow pg st \<noteq> None"
    if "\<forall>row\<in>set (tableRows pg). \<exists>m. retryEndsWithin (iters (dialog row)) m"
  proof (rule pageBody_ends)
    from that show "\<forall>row\<in>set (tableRows pg). \<forall>st. processRow row st \<noteq> None"
      using processRow_ends by blast
  qed
  have pass_id: "pageBody (\<lambda>row st. Some (processRow_id pid pname row st)) pg' st' \<noteq> None"
    by (rule pageBody_ends) simp
  have three: "cardLoop_id obs 0 v 0 = cardLoop_id obs' 0 v 0" if "\<forall>i<3. obs i = obs' i"
    using that by (rule cardLoop_id_three_passes)
  from name_keyed id_keyed pass pass_id three show ?thesis by blast
qed

lemma click_throws_pass:
  "pageBody processRow (session_click_throws k) ({}, []) = Some (({''R1''}, []), PageFailed)"
  by (simp add: session_click_throws_def pass_eval row_eval Let_def)

lemma click_throws_again:
  "\<exists>s'. pageBody processRow (session_click_throws k) ({''R1''}, []) = Some (s', PageLast)"
  by (simp add: session_click_throws_def pass_eval row_eval cardLoop_card Let_def)

lemma click_throws_pass_id:
  "pageBody (\<lambda>row st. Some (processRow_id pid pname row st)) (session_click_throws_id k) ({}, []) =
     Some (({''R1''}, []), PageFailed)"
  by (simp add: session_click_throws_id_def pass_eval row_id_eval Let_def)

lemma click_throws_again_id:
  "\<exists>s'. pageBody (\<lambda>row st. Some (processRow_id pid pname row st)) (session_click_throws_id k)
           ({''R1''}, []) = Some (s', PageLast)"
  by (simp add: session_click_throws_id_def pass_eval row_id_eval Let_def)

lemma click_throws_reload:
  "reloadOk (session_click_throws k)" "reloadOk (session_click_throws_id k)"
  by (simp_all add: session_click_throws_def session_click_throws_id_def last_page_def)

lemma setup_ok_ready: "setupReady setup_ok"
  by (simp add: setupReady_def setup_ok_def searchInputSelectors_def)

lemma page_raising_rows:
  "tableRows page_raising = [row_ok ''R1'' dialog_card, row_ok ''R2'' dialog_raising]"
  "retryEndsWithin (iters (dialog (row_ok ''R1'' dialog_card))) 1"
  "retryEndsWithin (iters (dialog (row_ok ''R2'' dialog_raising))) 3"
  by (simp_all add: page_raising_def last_page_def row_ok_def dialog_card_def dialog_raising_def
        retryEndsWithin_def yieldsData_def raises_def iter_card_def iter_raising_def
        cardData_of_def upt_rec [of 0] upt_rec [of 1] upt_rec [of 2] upt_rec [of 3])

text \<open>
  On the page where the click on R1 raises, the first pass fails and is answered by a
  reload; the second pass, entered with R1 marked as processed, skips R1, reads R2 and
  ends the loop: the call returns. In the session whose table never appears no pass
  ends the loop. On the sample page the retry loop of R1 reads a card in its first pass
  and that of R2 raises three times. The id-keyed retry loop that reads nothing in its
  first three passes returns what it has then, whatever later passes would read.
\<close>

theorem page_loop_returns_iff_a_pass_ends_it_witness:
  "setupReady setup_ok \<and>
   passState processRow session_click_throws 0 ({}, []) 1 = Some ({''R1''}, []) \<and>
   (\<exists>s'. pageBody processRow (session_click_throws 1) ({''R1''}, []) = Some (s', PageLast)) \<and>
   endsLoop (session_click_throws 1) PageLast \<and>
   processReservationsPage setup_ok session_click_throws \<noteq> None \<and>
   processReservationsPage_id (CNum True ''7'') (CNum True ''7'') setup_ok session_click_throws_id \<noteq> None \<and>
   \<not> (\<exists>n s s' e. passState processRow session_stuck 0 ({}, []) n = Some s \<and>
         pageBody processRow (session_stuck n) s = Some (s', e) \<and>
         endsLoop ((session_stuck :: nat \<Rightarrow> dialog_obs row_obs page_obs) n) e) \<and>
   tableRows page_raising = [row_ok ''R1'' dialog_card, row_ok ''R2'' dialog_raising] \<and>
   retryEndsWithin (iters (dialog (row_ok ''R1'' dialog_card))) 1 \<and>
   retryEndsWithin (iters (dialog (row_ok ''R2'' dialog_raising))) 3 \<and>
   pageBody processRow page_raising ({}, []) \<noteq> None \<and>
   iters_late_id 0 = iter_nothing_id \<and> iters_late_id 1 = iter_nothing_id \<and>
   iters_late_id 2 = iter_nothing_id \<and>
   cardLoop_id iters_late_id 0 (None, None, None, None, ''None'') 0 = vars_nothing_id"
proof -
  let ?f = "\<lambda>row st. Some (processRow_id (CNum True ''7'') (CNum True ''7'') row st)"
  note inst = page_loop_returns_iff_a_pass_ends_it
    [of setup_ok session_click_throws "CNum True ''7''" "CNum True ''7''" session_click_throws_id
        page_raising "({}, [])" _ _ "\<lambda>i. iter_nothing_id" iters_late_id
        "(None, None, None, None, ''None'')"]
  note stuck = page_loop_returns_iff_a_pass_ends_it [of setup_ok session_stuck]
  have reached: "passState processRow session_click_throws 0 ({}, []) 1 = Some ({''R1''}, [])"
    by (simp add: click_throws_pass continues_def click_throws_reload)
  have reached_id: "passState ?f session_click_throws_id 0 ({}, []) 1 = Some ({''R1''}, [])"
    by (simp add: click_throws_pass_id continues_def click_throws_reload)
  from click_throws_again [of 1] obtain s1
    where last: "pageBody processRow (session_click_throws 1) ({''R1''}, []) = Some (s1, PageLast)" ..
  from click_throws_again_id [of "CNum True ''7''" "CNum True ''7''" 1] obtain s2
    where last_id: "pageBody ?f (session_click_throws_id 1) ({''R1''}, []) = Some (s2, PageLast)" ..
  have ends: "endsLoop (session_click_throws 1) PageLast"
    and ends_id: "endsLoop (session_click_throws_id 1) PageLast"
    by (simp_all add: endsLoop_def)
  have "\<exists>n s s' e. passState processRow session_click_throws 0 ({}, []) n = Some s \<and>
      pageBody processRow (session_click_throws n) s = Some (s', e) \<and>
      endsLoop (session_click_throws n) e"
    by (intro exI conjI) (rule reached last ends)+
  then have returns: "processReservationsPage setup_ok session_click_throws \<noteq> None"
    by (rule inst [THEN conjunct1, THEN iffD2, OF disjI2])
  have "\<exists>n s s' e. passState ?f session_click_throws_id 0 ({}, []) n = Some s \<and>
      pageBody ?f (session_click_throws_id n) s = Some (s', e) \<and>
      endsLoop (session_click_throws_id n) e"
    by (intro exI conjI) (rule reached_id last_id ends_id)+
  then have returns_id: "processReservationsPage_id (CNum True ''7'') (CNum True ''7'') setup_ok
      session_click_throws_id \<noteq> None"
    by (rule inst [THEN conjunct2, THEN conjunct1, THEN iffD2, OF disjI2])
  have none: "processReservationsPage setup_ok session_stuck = None"
    by (simp add: processReservationsPage_def processReservationsPage_by_def setup_ok_def
          searchInputSelectors_def stuck_never_returns)
  have never: "\<not> (\<exists>n s s' e. passState processRow session_stuck 0 ({}, []) n = Some s \<and>
         pageBody processRow (session_stuck n) s = Some (s', e) \<and>
         endsLoop ((session_stuck :: nat \<Rightarrow> dialog_obs row_obs page_obs) n) e)"
  proof
    assume "\<exists>n s s' e. passState processRow session_stuck 0 ({}, []) n = Some s \<and>
         pageBody processRow (session_stuck n) s = Some (s', e) \<and>
         endsLoop ((session_stuck :: nat \<Rightarrow> dialog_obs row_obs page_obs) n) e"
    then have "processReservationsPage setup_ok session_stuck \<noteq> None"
      by (rule stuck [THEN conjunct1, THEN iffD2, OF disjI2])
    with none show False by simp
  qed
  have rows: "\<forall>row\<in>set (tableRows page_raising). \<exists>m. retryEndsWithin (iters (dialog row)) m"
    unfolding page_raising_rows(1) using page_raising_rows(2,3) by auto
  then have pass: "pageBody processRow page_raising ({}, []) \<noteq> None"
    by (rule inst [THEN conjunct2, THEN conjunct2, THEN conjunct1, THEN mp])
  have first: "iters_late_id 0 = iter_nothing_id" "iters_late_id 1 = iter_nothing_id"
    "iters_late_id 2 = iter_nothing_id"
    by (simp_all add: iters_late_id_def)
  have "\<forall>i<3. (\<lambda>i. iter_nothing_id) i = iters_late_id i"
    by (simp add: iters_late_id_def)
  then have "cardLoop_id (\<lambda>i. iter_nothing_id) 0 (None, None, None, None, ''None'') 0 =
      cardLoop_id iters_late_id 0 (None, None, None, None, ''None'') 0"
    by (rule inst [THEN conjunct2, THEN conjunct2, THEN conjunct2, THEN conjunct2, THEN mp])
  then have late: "cardLoop_id iters_late_id 0 (None, None, None, None, ''None'') 0 = vars_nothing_id"
    by (simp add: cardLoop_nothing_id)
  from last have last': "\<exists>s'. pageBody processRow (session_click_throws 1) ({''R1''}, []) =
      Some (s', PageLast)" ..
  show ?thesis
    by (intro conjI) (rule setup_ok_ready reached last' ends returns returns_id never
          page_raising_rows pass first late)+
qed

text \<open>
  Beside the page loop, the retry loop of a row in the name-keyed program need not end
  either: a dialog that shows neither a card number nor a total guest payment makes
  every pass succeed without data, and \<^verbatim>\<open>retries\<close> is incremented only in the handler.
\<close>

lemma cardLoop_nothing_aux:
  assumes run: "cardLoop obs i v = Some w"
  shows "\<not> (obs = (\<lambda>i. iter_nothing) \<and> fst v = None \<and> fst (snd v) = None \<and>
            snd (snd (snd (snd v))) = 0)"
proof (induct rule: cardLoop.raw_induct [OF _ run])
  case (1 loop obs i v w)
  show ?case
  proof
    assume a: "obs = (\<lambda>i. iter_nothing) \<and> fst v = None \<and> fst (snd v) = None \<and>
            snd (snd (snd (snd v))) = 0"
    then obtain remaining refund where v: "v = (None, None, remaining, refund, 0)"
      by (cases v) auto
    from a v have step: "cardStep (obs i) v = (None, None, Some [], Some [], 0)"
      by (simp add: cardStep_def readAdditional_def iter_nothing_def cardData_of_def
            paymentData_of_def)
    from "1"(2) v have "loop obs (i + 1) (cardStep (obs i) v) = Some w" by simp
    from "1"(1) [OF this] a step show False by simp
  qed
qed

lemma cardLoop_nothing_never_returns:
  "cardLoop (\<lambda>i. iter_nothing) 0 (None, None, None, None, 0) = None"
proof (cases "cardLoop (\<lambda>i. iter_nothing) 0 (None, None, None, None, 0)")
  case None
  then show ?thesis .
next
  case (Some w)
  from cardLoop_nothing_aux [OF this] show ?thesis by simp
qed

lemma empty_dialog_never_returns:
  "processReservationsPage setup_ok (\<lambda>k. last_page [row_ok ''R1'' dialog_empty]) = None"
  by (simp add: pass_eval row_eval cardLoop_nothing_never_returns)

end
